theory Spec2Isabelle
  imports Main "HOL-Library.Word"
begin

unbundle bit_operations_syntax

section \<open>Strings and bytes\<close>

text \<open>
  A Go string is a sequence of bytes; it is modelled as \<open>string\<close> (a list of 8-bit
  characters). A byte slice or byte array is a list of \<open>8 word\<close>.
\<close>

type_synonym byte = "8 word"

definition byte_of :: "char \<Rightarrow> nat" where
  "byte_of c = of_char c"

text \<open>\<^verbatim>\<open>strings.TrimPrefix(s, prefix)\<close>.\<close>

definition TrimPrefix :: "string \<Rightarrow> string \<Rightarrow> string" where
  "TrimPrefix s prefix =
     (if take (length prefix) s = prefix then drop (length prefix) s else s)"

subsection \<open>\<^verbatim>\<open>strings.EqualFold\<close>\<close>

text \<open>
  One step of the comparison on two ASCII bytes, as in the Go library: equal, or, once
  the two are ordered, the smaller is an upper-case letter and the larger is the same
  letter in lower case.
\<close>

definition foldEqByte :: "char \<Rightarrow> char \<Rightarrow> bool" where
  "foldEqByte sr tr =
     (let a = min (byte_of sr) (byte_of tr); b = max (byte_of sr) (byte_of tr)
      in a = b \<or> (65 \<le> a \<and> a \<le> 90 \<and> b = a + 32))"

text \<open>
  \<^verbatim>\<open>strings.EqualFold(s, t)\<close> for a second argument \<open>t\<close> made of ASCII bytes only,
  which is what every call modelled here passes (the output of \<^verbatim>\<open>Address.Hex\<close> and
  the names of the JSON fields). The first argument is any byte string. Go compares rune
  by rune under Unicode simple case folding; the only runes outside ASCII whose folding
  orbit holds an ASCII letter are U+017F (bytes C5 BF, folds with \<open>s\<close>) and U+212A
  (bytes E2 84 AA, folds with \<open>k\<close>). Any other rune outside ASCII, and any byte that is
  not valid UTF-8, equals no ASCII byte.
\<close>

fun EqualFold :: "string \<Rightarrow> string \<Rightarrow> bool" where
  "EqualFold [] t = (t = [])"
| "EqualFold (sr # s) [] = False"
| "EqualFold (sr # s) (tr # t) =
     (if byte_of sr < 128 then foldEqByte sr tr \<and> EqualFold s t
      else if byte_of sr = 197 \<and> map byte_of (take 1 s) = [191]
        then (tr = CHR ''s'' \<or> tr = CHR ''S'') \<and> EqualFold (drop 1 s) t
      else if byte_of sr = 226 \<and> map byte_of (take 2 s) = [132, 170]
        then (tr = CHR ''k'' \<or> tr = CHR ''K'') \<and> EqualFold (drop 2 s) t
      else False)"

subsection \<open>\<^verbatim>\<open>encoding/hex\<close>\<close>

definition hextable :: string where
  "hextable = ''0123456789abcdef''"

text \<open>\<^verbatim>\<open>hex.Encode\<close>: two lower-case digits per byte.\<close>

fun hex_Encode :: "byte list \<Rightarrow> string" where
  "hex_Encode [] = []"
| "hex_Encode (v # src) =
     hextable ! unat (drop_bit 4 v) # hextable ! unat (v AND 15) # hex_Encode src"

text \<open>The decoder's table: the value of a hexadecimal digit of either case.\<close>

definition fromHexChar :: "char \<Rightarrow> byte option" where
  "fromHexChar c =
     (let n = byte_of c in
      if 48 \<le> n \<and> n \<le> 57 then Some (of_nat (n - 48))
      else if 97 \<le> n \<and> n \<le> 102 then Some (of_nat (n - 97 + 10))
      else if 65 \<le> n \<and> n \<le> 70 then Some (of_nat (n - 65 + 10))
      else None)"

datatype hex_error = InvalidByteError char | ErrLength

text \<open>
  \<^verbatim>\<open>hex.DecodeString\<close>: the bytes decoded before the first error, and the error.
\<close>

fun hex_DecodeString :: "string \<Rightarrow> byte list \<times> hex_error option" where
  "hex_DecodeString [] = ([], None)"
| "hex_DecodeString [p] =
     (case fromHexChar p of
        None \<Rightarrow> ([], Some (InvalidByteError p))
      | Some a \<Rightarrow> ([], Some ErrLength))"
| "hex_DecodeString (p # q # src) =
     (case fromHexChar p of
        None \<Rightarrow> ([], Some (InvalidByteError p))
      | Some a \<Rightarrow>
          (case fromHexChar q of
             None \<Rightarrow> ([], Some (InvalidByteError q))
           | Some b \<Rightarrow>
               (case hex_DecodeString src of
                  (dst, err) \<Rightarrow> ((push_bit 4 a OR b) # dst, err))))"

section \<open>Addresses (\<^verbatim>\<open>go-ethereum/common\<close>)\<close>

text \<open>\<^verbatim>\<open>common.Address\<close> is \<^verbatim>\<open>[20]byte\<close>.\<close>

type_synonym address = "byte list"

definition AddressLength :: nat where
  "AddressLength = 20"

definition has0xPrefix :: "string \<Rightarrow> bool" where
  "has0xPrefix str =
     (length str \<ge> 2 \<and> str ! 0 = CHR ''0'' \<and> (str ! 1 = CHR ''x'' \<or> str ! 1 = CHR ''X''))"

text \<open>\<^verbatim>\<open>Hex2Bytes\<close> drops the decoder's error.\<close>

definition Hex2Bytes :: "string \<Rightarrow> byte list" where
  "Hex2Bytes str = fst (hex_DecodeString str)"

definition FromHex :: "string \<Rightarrow> byte list" where
  "FromHex s =
     (let s1 = (if has0xPrefix s then drop 2 s else s);
          s2 = (if length s1 mod 2 = 1 then CHR ''0'' # s1 else s1)
      in Hex2Bytes s2)"

text \<open>
  \<^verbatim>\<open>BytesToAddress\<close>: the last 20 bytes of a longer slice, a shorter one padded with
  zero bytes on the left.
\<close>

definition BytesToAddress :: "byte list \<Rightarrow> address" where
  "BytesToAddress b =
     (let b1 = (if length b > AddressLength then drop (length b - AddressLength) b else b)
      in replicate (AddressLength - length b1) 0 @ b1)"

definition HexToAddress :: "string \<Rightarrow> address" where
  "HexToAddress s = BytesToAddress (FromHex s)"

text \<open>\<^verbatim>\<open>Address.hex\<close>: \<open>0x\<close> and the lower-case digits.\<close>

definition hex :: "address \<Rightarrow> string" where
  "hex a = ''0x'' @ hex_Encode a"

subsection \<open>Keccak-256, for the EIP-55 checksum\<close>

type_synonym lane = "64 word"

definition RC :: "lane list" where
  "RC = [0x0000000000000001, 0x0000000000008082, 0x800000000000808A, 0x8000000080008000,
         0x000000000000808B, 0x0000000080000001, 0x8000000080008081, 0x8000000000008009,
         0x000000000000008A, 0x0000000000000088, 0x0000000080008009, 0x000000008000000A,
         0x000000008000808B, 0x800000000000008B, 0x8000000000008089, 0x8000000000008003,
         0x8000000000008002, 0x8000000000000080, 0x000000000000800A, 0x800000008000000A,
         0x8000000080008081, 0x8000000000008080, 0x0000000080000001, 0x8000000080008008]"

text \<open>Rotation offsets, by lane index \<open>x + 5 * y\<close>.\<close>

definition rho_offsets :: "nat list" where
  "rho_offsets = [0, 1, 62, 28, 27,
                  36, 44, 6, 55, 20,
                  3, 10, 43, 25, 39,
                  41, 45, 15, 21, 8,
                  18, 2, 61, 56, 14]"

definition theta :: "lane list \<Rightarrow> lane list" where
  "theta A =
     (let C = map (\<lambda>x. A ! x XOR A ! (x + 5) XOR A ! (x + 10) XOR A ! (x + 15) XOR A ! (x + 20))
                [0..<5];
          D = map (\<lambda>x. C ! ((x + 4) mod 5) XOR word_rotl 1 (C ! ((x + 1) mod 5))) [0..<5]
      in map (\<lambda>i. A ! i XOR D ! (i mod 5)) [0..<25])"

text \<open>
  \<open>rho\<close> and \<open>pi\<close> together: the lane at \<open>(x, y)\<close>, rotated, moves to
  \<open>(y, 2 * x + 3 * y)\<close>. Read backwards, position \<open>(X, Y)\<close> receives the lane at
  \<open>(x, y)\<close> with \<open>y = X\<close> and \<open>x = (X + 3 * Y) mod 5\<close>.
\<close>

definition rho_pi :: "lane list \<Rightarrow> lane list" where
  "rho_pi A =
     map (\<lambda>i. let X = i mod 5; Y = i div 5; x = (X + 3 * Y) mod 5; y = X
               in word_rotl (rho_offsets ! (x + 5 * y)) (A ! (x + 5 * y))) [0..<25]"

definition chi :: "lane list \<Rightarrow> lane list" where
  "chi B =
     map (\<lambda>i. let x = i mod 5; y = i div 5
               in B ! i XOR (NOT (B ! ((x + 1) mod 5 + 5 * y)) AND B ! ((x + 2) mod 5 + 5 * y)))
         [0..<25]"

definition iota :: "lane \<Rightarrow> lane list \<Rightarrow> lane list" where
  "iota rc A = (A ! 0 XOR rc) # tl A"

definition keccak_round :: "lane list \<Rightarrow> lane \<Rightarrow> lane list" where
  "keccak_round A rc = iota rc (chi (rho_pi (theta A)))"

definition keccak_f :: "lane list \<Rightarrow> lane list" where
  "keccak_f A = foldl keccak_round A RC"

text \<open>A lane from eight bytes, least significant first, and back.\<close>

definition lane_of_bytes :: "byte list \<Rightarrow> lane" where
  "lane_of_bytes bs = foldr (\<lambda>b w. push_bit 8 w OR ucast b) bs 0"

definition bytes_of_lane :: "lane \<Rightarrow> byte list" where
  "bytes_of_lane w = map (\<lambda>k. ucast (drop_bit (8 * k) w)) [0..<8]"

fun chunks :: "nat \<Rightarrow> 'a list \<Rightarrow> 'a list list" where
  "chunks n [] = []"
| "chunks n (x # xs) = take (Suc (n - 1)) (x # xs) # chunks n (drop (n - 1) xs)"

text \<open>The rate of Keccak-256 is 136 bytes; the legacy padding starts with byte 1.\<close>

definition keccak_pad :: "byte list \<Rightarrow> byte list" where
  "keccak_pad msg =
     (let q = 136 - length msg mod 136
      in if q = 1 then msg @ [0x81] else msg @ [0x01] @ replicate (q - 2) 0 @ [0x80])"

definition absorb :: "lane list \<Rightarrow> byte list \<Rightarrow> lane list" where
  "absorb A block =
     keccak_f (map (\<lambda>i. if i < 17 then A ! i XOR lane_of_bytes (take 8 (drop (8 * i) block))
                         else A ! i) [0..<25])"

definition Keccak256 :: "byte list \<Rightarrow> byte list" where
  "Keccak256 msg =
     take 32 (concat (map bytes_of_lane
       (foldl absorb (replicate 25 0) (chunks 136 (keccak_pad msg)))))"

subsection \<open>\<^verbatim>\<open>Address.Hex\<close>\<close>

text \<open>
  \<^verbatim>\<open>checksumHex\<close>: digit \<open>i\<close> of the lower-case form (counted after the prefix) is
  put in upper case when it is a letter and nibble \<open>i\<close> of the Keccak-256 hash of the
  lower-case digits is above 7.
\<close>

definition checksum_digit :: "byte list \<Rightarrow> nat \<Rightarrow> char \<Rightarrow> char" where
  "checksum_digit hash i c =
     (let hashByte = hash ! (i div 2);
          nib = (if i mod 2 = 0 then drop_bit 4 hashByte else hashByte AND 15)
      in if byte_of c > 57 \<and> nib > 7 then char_of (byte_of c - 32) else c)"

definition checksumHex :: "address \<Rightarrow> string" where
  "checksumHex a =
     (let digits = hex_Encode a;
          hash = Keccak256 (map of_char digits)
      in ''0x'' @ map (\<lambda>i. checksum_digit hash i (digits ! i)) [0..<length digits])"

definition Hex :: "address \<Rightarrow> string" where
  "Hex a = checksumHex a"

section \<open>Arbitrary-precision integers (\<^verbatim>\<open>math/big\<close>)\<close>

text \<open>
  A \<^verbatim>\<open>*big.Int\<close> is a pointer: \<open>None\<close> is the nil pointer, \<open>Some n\<close> points to
  the integer \<open>n\<close>.
\<close>

text \<open>The value of a digit in \<^verbatim>\<open>nat.scan\<close>; a byte that is no digit has none.\<close>

definition digitVal :: "char \<Rightarrow> nat option" where
  "digitVal ch =
     (let n = byte_of ch in
      if 48 \<le> n \<and> n \<le> 57 then Some (n - 48)
      else if 97 \<le> n \<and> n \<le> 122 then Some (n - 97 + 10)
      else if 65 \<le> n \<and> n \<le> 90 then Some (n - 65 + 10)
      else None)"

text \<open>
  \<^verbatim>\<open>scanSign\<close>: an optional \<open>+\<close> or \<open>-\<close>; reading from an empty input is an error.
\<close>

definition scanSign :: "string \<Rightarrow> (bool \<times> string) option" where
  "scanSign r =
     (case r of
        [] \<Rightarrow> None
      | ch # rest \<Rightarrow>
          if ch = CHR ''-'' then Some (True, rest)
          else if ch = CHR ''+'' then Some (False, rest)
          else Some (False, ch # rest))"

text \<open>
  The digit loop of \<^verbatim>\<open>nat.scan\<close> for an explicit base between 2 and 36 (no prefix,
  no separators, no fraction): it consumes digits below the base and stops at the first
  other byte, which stays unread. The accumulator is the value so far, the counter the
  number of digits.
\<close>

fun scanDigits :: "nat \<Rightarrow> string \<Rightarrow> nat \<Rightarrow> nat \<Rightarrow> nat \<times> nat \<times> string" where
  "scanDigits b [] z count = (z, count, [])"
| "scanDigits b (ch # r) z count =
     (case digitVal ch of
        None \<Rightarrow> (z, count, ch # r)
      | Some d1 \<Rightarrow>
          if d1 \<ge> b then (z, count, ch # r)
          else scanDigits b r (z * b + d1) (Suc count))"

text \<open>
  \<^verbatim>\<open>(*Int).SetString(s, base)\<close> for a base between 2 and 36: sign, at least one
  digit, and nothing after the digits. \<open>None\<close> is the result \<^verbatim>\<open>(nil, false)\<close>.
  Zero has no sign.
\<close>

definition SetString :: "string \<Rightarrow> nat \<Rightarrow> int option" where
  "SetString s base =
     (case scanSign s of
        None \<Rightarrow> None
      | Some (neg, r) \<Rightarrow>
          (case scanDigits base r 0 0 of
             (z, count, rest) \<Rightarrow>
               if count = 0 then None
               else if rest \<noteq> [] then None
               else Some (if neg then - int z else int z)))"

datatype panic = NilPointerDereference

text \<open>
  \<^verbatim>\<open>x.Cmp(y)\<close> for a receiver that is not nil: it reads \<^verbatim>\<open>y.neg\<close>, so a nil
  \<open>y\<close> is a run-time panic.
\<close>

definition Cmp :: "int \<Rightarrow> int option \<Rightarrow> panic + int" where
  "Cmp x y =
     (case y of
        None \<Rightarrow> Inl NilPointerDereference
      | Some v \<Rightarrow> Inr (if x < v then - 1 else if x = v then 0 else 1))"

section \<open>The policy\<close>

record Policy =
  MaxAmountWei :: "int option"
  Whitelist :: "string list"

datatype go_error =
    ErrorString string
  | PathError string
  | SyntaxError
  | UnmarshalTypeError string string
  | BigIntUnmarshalError
  | ExternalError string

definition errors_New :: "string \<Rightarrow> go_error" where
  "errors_New text = ErrorString text"

subsection \<open>\<^verbatim>\<open>json.Unmarshal\<close> into a \<^verbatim>\<open>Policy\<close>\<close>

text \<open>
  A JSON value as the decoder's scanner delivers it. A number literal is kept apart
  by its form: \<open>JInt\<close> for an integer literal, \<open>JFrac\<close> for a literal with a
  fraction or an exponent (its text). Object members keep their order and duplicates.
\<close>

datatype json =
    JNull
  | JBool bool
  | JInt int
  | JFrac string
  | JString string
  | JArray "json list"
  | JObject "(string \<times> json) list"

text \<open>
  The bytes of a file as \<^verbatim>\<open>encoding/json\<close> sees them: text that fails the syntax
  check, or the value the text spells.
\<close>

datatype json_text = Invalid | Valid json

definition kind_of :: "json \<Rightarrow> string" where
  "kind_of v =
     (case v of
        JNull \<Rightarrow> ''null'' | JBool b \<Rightarrow> ''bool'' | JInt n \<Rightarrow> ''number'' | JFrac t \<Rightarrow> ''number''
      | JString s \<Rightarrow> ''string'' | JArray xs \<Rightarrow> ''array'' | JObject ms \<Rightarrow> ''object'')"

text \<open>
  The decoder's state while it fills the struct: the pointer field, the slice field as
  its backing array and length, and the first type error saved (decoding goes on after
  a type error; the error is returned at the end).
\<close>

record dstate =
  d_max :: "int option"
  d_arr :: "string list"
  d_len :: nat
  savedError :: "go_error option"

definition saveError :: "go_error \<Rightarrow> dstate \<Rightarrow> dstate" where
  "saveError err d = (if savedError d = None then d\<lparr>savedError := Some err\<rparr> else d)"

text \<open>
  The elements of a JSON array into the slice, slot by slot: a string is stored, a
  \<open>null\<close> leaves the slot as it is (the empty string in a slot never written), any
  other value is a type error and leaves the slot too.
\<close>

fun decode_elems :: "nat \<Rightarrow> json list \<Rightarrow> dstate \<Rightarrow> dstate" where
  "decode_elems i [] d = d"
| "decode_elems i (e # es) d =
     (let d1 = (if i < length (d_arr d) then d else d\<lparr>d_arr := d_arr d @ [[]]\<rparr>);
          d2 = (case e of
                  JString s \<Rightarrow> d1\<lparr>d_arr := (d_arr d1)[i := s]\<rparr>
                | JNull \<Rightarrow> d1
                | _ \<Rightarrow> saveError (UnmarshalTypeError (kind_of e) ''string'') d1)
      in decode_elems (Suc i) es d2)"

definition decode_whitelist :: "json \<Rightarrow> dstate \<Rightarrow> dstate" where
  "decode_whitelist v d =
     (case v of
        JNull \<Rightarrow> d\<lparr>d_arr := [], d_len := 0\<rparr>
      | JArray es \<Rightarrow>
          if es = [] then d\<lparr>d_arr := [], d_len := 0\<rparr>
          else (decode_elems 0 es d)\<lparr>d_len := length es\<rparr>
      | _ \<Rightarrow> saveError (UnmarshalTypeError (kind_of v) ''[]string'') d)"

text \<open>
  \<^verbatim>\<open>*big.Int\<close> has its own \<^verbatim>\<open>UnmarshalJSON\<close>: \<open>null\<close> sets the pointer to nil,
  an integer literal is parsed, and any other value is an error that stops the decoding.
\<close>

definition decode_max :: "json \<Rightarrow> dstate \<Rightarrow> go_error + dstate" where
  "decode_max v d =
     (case v of
        JNull \<Rightarrow> Inr (d\<lparr>d_max := None\<rparr>)
      | JInt n \<Rightarrow> Inr (d\<lparr>d_max := Some n\<rparr>)
      | _ \<Rightarrow> Inl BigIntUnmarshalError)"

text \<open>
  One member of the object: its key is matched against the field names of the struct
  tags, ignoring case; a key that matches no field is skipped.
\<close>

definition decode_member :: "string \<times> json \<Rightarrow> dstate \<Rightarrow> go_error + dstate" where
  "decode_member m d =
     (if EqualFold (fst m) ''max_amount_wei'' then decode_max (snd m) d
      else if EqualFold (fst m) ''whitelist'' then Inr (decode_whitelist (snd m) d)
      else Inr d)"

fun decode_members :: "(string \<times> json) list \<Rightarrow> dstate \<Rightarrow> go_error + dstate" where
  "decode_members [] d = Inr d"
| "decode_members (m # ms) d =
     (case decode_member m d of
        Inl err \<Rightarrow> Inl err
      | Inr d1 \<Rightarrow> decode_members ms d1)"

definition zero_dstate :: dstate where
  "zero_dstate = \<lparr>d_max = None, d_arr = [], d_len = 0, savedError = None\<rparr>"

definition policy_of :: "dstate \<Rightarrow> Policy" where
  "policy_of d = \<lparr>MaxAmountWei = d_max d, Whitelist = take (d_len d) (d_arr d)\<rparr>"

text \<open>
  \<^verbatim>\<open>json.Unmarshal(data, &policy)\<close> on a zero \<^verbatim>\<open>Policy\<close>: \<open>Inl\<close> is the error
  returned, \<open>Inr\<close> the struct as filled when the error is nil. A top-level \<open>null\<close>
  leaves the struct as it is; any top-level value but an object or \<open>null\<close> is a type
  error.
\<close>

definition Unmarshal :: "json_text \<Rightarrow> go_error + Policy" where
  "Unmarshal data =
     (case data of
        Invalid \<Rightarrow> Inl SyntaxError
      | Valid v \<Rightarrow>
          (case v of
             JObject ms \<Rightarrow>
               (case decode_members ms zero_dstate of
                  Inl err \<Rightarrow> Inl err
                | Inr d \<Rightarrow>
                    (case savedError d of
                       Some err \<Rightarrow> Inl err
                     | None \<Rightarrow> Inr (policy_of d)))
           | JNull \<Rightarrow> Inr (policy_of zero_dstate)
           | _ \<Rightarrow> Inl (UnmarshalTypeError (kind_of v) ''main.Policy'')))"

text \<open>
  \<^verbatim>\<open>loadPolicy\<close>. The file system is a parameter: \<open>readFile\<close> gives the error or the
  content of a path.
\<close>

definition loadPolicy :: "(string \<Rightarrow> go_error + json_text) \<Rightarrow> string \<Rightarrow> go_error + Policy" where
  "loadPolicy readFile file =
     (case readFile file of
        Inl err \<Rightarrow> Inl err
      | Inr data \<Rightarrow>
          (case Unmarshal data of
             Inl err \<Rightarrow> Inl err
           | Inr pol \<Rightarrow> Inr pol))"

subsection \<open>\<^verbatim>\<open>checkPolicy\<close>\<close>

text \<open>
  The memory a call of \<^verbatim>\<open>checkPolicy\<close> can reach: the policy and the amount behind
  its two pointer parameters, the recipient, and the local variable \<open>allowed\<close>. Both
  pointers are never nil where \<^verbatim>\<open>main\<close> calls it (\<^verbatim>\<open>loadPolicy\<close> returns the
  address of a struct, and a failed \<^verbatim>\<open>SetString\<close> ends the run before).
\<close>

record frame =
  policy :: Policy
  to :: address
  amount :: int
  allowed :: bool

text \<open>The loop over the whitelist: the first match sets \<open>allowed\<close> and breaks.\<close>

fun whitelist_loop :: "string list \<Rightarrow> frame \<Rightarrow> frame" where
  "whitelist_loop [] fr = fr"
| "whitelist_loop (addr # rest) fr =
     (if EqualFold addr (Hex (to fr)) then fr\<lparr>allowed := True\<rparr>
      else whitelist_loop rest fr)"

text \<open>
  The body of \<^verbatim>\<open>checkPolicy\<close> on a frame: the returned error (\<open>None\<close> is nil) or
  the panic, and the frame it leaves.
\<close>

definition checkPolicy_body :: "frame \<Rightarrow> (panic + go_error option) \<times> frame" where
  "checkPolicy_body fr0 =
     (let fr1 = fr0\<lparr>allowed := False\<rparr>;
          fr2 = whitelist_loop (Whitelist (policy fr1)) fr1
      in if \<not> allowed fr2 then (Inr (Some (errors_New ''recipient not in whitelist'')), fr2)
         else (case Cmp (amount fr2) (MaxAmountWei (policy fr2)) of
                 Inl p \<Rightarrow> (Inl p, fr2)
               | Inr c \<Rightarrow>
                   if c > 0 then (Inr (Some (errors_New ''amount exceeds max policy limit'')), fr2)
                   else (Inr None, fr2)))"

definition checkPolicy :: "Policy \<Rightarrow> address \<Rightarrow> int \<Rightarrow> panic + go_error option" where
  "checkPolicy p t a =
     fst (checkPolicy_body \<lparr>policy = p, to = t, amount = a, allowed = False\<rparr>)"

section \<open>The transaction\<close>

text \<open>The fields of the legacy transaction that \<^verbatim>\<open>types.NewTransaction\<close> fills.\<close>

record Transaction =
  Nonce :: "64 word"
  To :: address
  Value :: int
  Gas :: "64 word"
  GasPrice :: int
  Data :: "byte list"

text \<open>A nil \<open>data\<close> argument is \<open>None\<close>; its copy is the empty payload.\<close>

definition NewTransaction ::
  "64 word \<Rightarrow> address \<Rightarrow> int \<Rightarrow> 64 word \<Rightarrow> int \<Rightarrow> byte list option \<Rightarrow> Transaction" where
  "NewTransaction n t amt gasLimit gasPrice data =
     \<lparr>Nonce = n, To = t, Value = amt, Gas = gasLimit, GasPrice = gasPrice,
      Data = (case data of None \<Rightarrow> [] | Some bs \<Rightarrow> bs)\<rparr>"

section \<open>The pipeline (\<^verbatim>\<open>main\<close>)\<close>

text \<open>The values of the command-line flags after \<^verbatim>\<open>flag.Parse\<close>.\<close>

record flags =
  privKeyHex :: string
  toAddr :: string
  amountWeiStr :: string
  nonce :: "64 word"
  chainID :: "64 word"
  policyFile :: string

text \<open>
  What the pipeline calls outside this program: the key decoder, the file system, the
  signer for a chain identifier and the encoder of the signed transaction. \<open>'k\<close> is the
  type of private keys, \<open>'s\<close> of signed transactions.
\<close>

record ('k, 's) env =
  HexToECDSA :: "string \<Rightarrow> go_error + 'k"
  ReadFile :: "string \<Rightarrow> go_error + json_text"
  SignTx :: "Transaction \<Rightarrow> int \<Rightarrow> 'k \<Rightarrow> go_error + 's"
  MarshalBinary :: "'s \<Rightarrow> go_error + byte list"

definition loadPrivateKey :: "('k, 's) env \<Rightarrow> string \<Rightarrow> go_error + 'k" where
  "loadPrivateKey e hexKey = HexToECDSA e (TrimPrefix hexKey ''0x'')"

text \<open>The calls a run makes, in order, and the line it prints.\<close>

datatype ('k, 's) event =
    EvLoadPrivateKey string
  | EvLoadPolicy string
  | EvCheckPolicy Policy address int
  | EvNewTransaction Transaction
  | EvSignTx Transaction int 'k
  | EvMarshalBinary 's
  | EvPrintln string

text \<open>The message of each \<^verbatim>\<open>log.Fatal\<close>, by its place in \<^verbatim>\<open>main\<close>.\<close>

datatype fatal =
    KeyAndToRequired
  | FailedToLoadPrivateKey go_error
  | FailedToLoadPolicy go_error
  | InvalidAmount
  | PolicyCheckFailed go_error
  | FailedToSignTx go_error
  | FailedToSerializeTx go_error

datatype outcome = Printed string | Fatal fatal | Panicked panic

text \<open>
  \<^verbatim>\<open>main\<close>, from the decision of the policy on: the transaction is built, signed,
  encoded and printed. The trace \<open>tr\<close> holds the calls made before.
\<close>

definition sign_and_print ::
  "('k, 's) env \<Rightarrow> flags \<Rightarrow> 'k \<Rightarrow> address \<Rightarrow> int \<Rightarrow> ('k, 's) event list
     \<Rightarrow> outcome \<times> ('k, 's) event list" where
  "sign_and_print e f privateKey t amountWei tr =
     (let tx = NewTransaction (nonce f) t amountWei 21000 1000000000 None;
          tr4 = tr @ [EvNewTransaction tx, EvSignTx tx (sint (chainID f)) privateKey]
      in case SignTx e tx (sint (chainID f)) privateKey of
           Inl err \<Rightarrow> (Fatal (FailedToSignTx err), tr4)
         | Inr signedTx \<Rightarrow>
             (let tr5 = tr4 @ [EvMarshalBinary signedTx]
              in case MarshalBinary e signedTx of
                   Inl err \<Rightarrow> (Fatal (FailedToSerializeTx err), tr5)
                 | Inr rawTxBytes \<Rightarrow>
                     (let line = ''RawTxHex: '' @ hex_Encode rawTxBytes
                      in (Printed line, tr5 @ [EvPrintln line]))))"

text \<open>
  \<^verbatim>\<open>main\<close>: how the run ends, and the calls it made up to there.
\<close>

definition main :: "('k, 's) env \<Rightarrow> flags \<Rightarrow> outcome \<times> ('k, 's) event list" where
  "main e f =
     (if privKeyHex f = [] \<or> toAddr f = [] then (Fatal KeyAndToRequired, [])
      else
        let tr1 = [EvLoadPrivateKey (privKeyHex f)] in
        case loadPrivateKey e (privKeyHex f) of
          Inl err \<Rightarrow> (Fatal (FailedToLoadPrivateKey err), tr1)
        | Inr privateKey \<Rightarrow>
            (let tr2 = tr1 @ [EvLoadPolicy (policyFile f)]
             in case loadPolicy (ReadFile e) (policyFile f) of
                  Inl err \<Rightarrow> (Fatal (FailedToLoadPolicy err), tr2)
                | Inr pol \<Rightarrow>
                    (case SetString (amountWeiStr f) 10 of
                       None \<Rightarrow> (Fatal InvalidAmount, tr2)
                     | Some amountWei \<Rightarrow>
                         (let t = HexToAddress (toAddr f);
                              tr3 = tr2 @ [EvCheckPolicy pol t amountWei]
                          in case checkPolicy pol t amountWei of
                               Inl p \<Rightarrow> (Panicked p, tr3)
                             | Inr (Some err) \<Rightarrow> (Fatal (PolicyCheckFailed err), tr3)
                             | Inr None \<Rightarrow> sign_and_print e f privateKey t amountWei tr3))))"

section \<open>Decimal numerals\<close>

text \<open>
  The vocabulary for the strings \<^verbatim>\<open>SetString\<close> accepts in base 10: a decimal digit,
  and the number a string of decimal digits denotes.
\<close>

definition decimal_digit :: "char \<Rightarrow> bool" where
  "decimal_digit ch = (48 \<le> byte_of ch \<and> byte_of ch \<le> 57)"

definition decimal :: "string \<Rightarrow> nat" where
  "decimal ds = foldl (\<lambda>z ch. z * 10 + (byte_of ch - 48)) 0 ds"

section \<open>The scenarios of the specification, as concrete inputs\<close>

text \<open>
  The policy of the end-to-end scenarios: limit 1000, one whitelist entry in upper case.
\<close>

definition scenario_entry :: string where
  "scenario_entry = ''0xAAAAAAAAAAAAAAAAAAAAAAAAAAAAAAAAAAAAAAA1''"

definition scenario_policy :: Policy where
  "scenario_policy = \<lparr>MaxAmountWei = Some 1000, Whitelist = [scenario_entry]\<rparr>"

definition scenario_json :: json where
  "scenario_json =
     JObject [(''max_amount_wei'', JInt 1000), (''whitelist'', JArray [JString scenario_entry])]"

text \<open>The entry of the scenarios without its \<open>0x\<close>.\<close>

definition unprefixed_entry :: string where
  "unprefixed_entry = ''AAAAAAAAAAAAAAAAAAAAAAAAAAAAAAAAAAAAAAA1''"

text \<open>The two recipients of the scenarios, as typed on the command line.\<close>

definition recipient_a1 :: string where
  "recipient_a1 = ''0xaaaaaaaaaaaaaaaaaaaaaaaaaaaaaaaaaaaaaaa1''"

definition recipient_b2 :: string where
  "recipient_b2 = ''0xbbbbbbbbbbbbbbbbbbbbbbbbbbbbbbbbbbbbbbb2''"

text \<open>
  Stand-ins for the collaborators outside the program, for running \<^verbatim>\<open>main\<close> on a
  concrete input: a key decoder that accepts every string, a file system whose every
  path holds the given content, a signer that pairs the transaction with the chain
  identifier, and an encoder that returns one byte.
\<close>

definition scenario_env :: "json_text \<Rightarrow> (string, Transaction \<times> int) env" where
  "scenario_env content =
     \<lparr>HexToECDSA = (\<lambda>s. Inr s), ReadFile = (\<lambda>path. Inr content),
      SignTx = (\<lambda>tx c k. Inr (tx, c)), MarshalBinary = (\<lambda>s. Inr [1])\<rparr>"

definition scenario_flags :: "string \<Rightarrow> string \<Rightarrow> flags" where
  "scenario_flags recipient amt =
     \<lparr>privKeyHex = ''0x01'', toAddr = recipient, amountWeiStr = amt, nonce = 7,
      chainID = 1, policyFile = ''policy.json''\<rparr>"

section \<open>Case folding and the hexadecimal forms of an address\<close>

lemma foldEqByte_refl: "foldEqByte c c"
  by (simp add: foldEqByte_def)

lemma foldEqByte_sym: "foldEqByte c d \<Longrightarrow> foldEqByte d c"
  unfolding foldEqByte_def Let_def min_def max_def
  by (auto split: if_splits)

lemma foldEqByte_trans: "foldEqByte c d \<Longrightarrow> foldEqByte d e \<Longrightarrow> foldEqByte c e"
  unfolding foldEqByte_def Let_def min_def max_def
  by (auto split: if_splits)

lemma unat_hi: "unat (drop_bit 4 (v::byte)) < 16"
proof -
  have "unat v < 256" using unsigned_less [of v, where ?'a = nat] by simp
  moreover have "unat (drop_bit 4 v) = drop_bit 4 (unat v)" by (rule unat_drop_bit_eq)
  moreover have "drop_bit 4 (unat v) = unat v div 16" by (simp add: drop_bit_eq_div)
  ultimately show ?thesis by simp
qed

lemma unat_lo: "unat ((v::byte) AND 15) < 16"
proof -
  have "(15::byte) = mask 4" by (simp add: mask_eq_exp_minus_1)
  then have "v AND 15 = take_bit 4 v" by (simp add: take_bit_eq_mask)
  then have "unat (v AND 15) = take_bit 4 (unat v)" by (simp add: unsigned_take_bit_eq)
  then show ?thesis using take_bit_nat_less_exp [of 4 "unat v"] by simp
qed

lemma hextable_nth: "n < 16 \<Longrightarrow> hextable ! n \<in> set hextable"
  by (rule nth_mem) (simp add: hextable_def)

lemma hex_Encode_digits: "x \<in> set (hex_Encode a) \<Longrightarrow> x \<in> set hextable"
  by (induction a) (auto simp: hextable_nth [OF unat_hi] hextable_nth [OF unat_lo])

lemma length_hex_Encode: "length (hex_Encode a) = 2 * length a"
  by (induction a) auto

lemma checksum_digit_fold: "c \<in> set hextable \<Longrightarrow> foldEqByte c (checksum_digit h i c)"
  unfolding hextable_def checksum_digit_def Let_def foldEqByte_def byte_of_def
  by auto

lemma char_eq_byte: "c = d \<longleftrightarrow> byte_of c = byte_of d"
  by (simp add: byte_of_def)

lemma fold_s: "foldEqByte tr tr' \<Longrightarrow> (tr = CHR ''s'' \<or> tr = CHR ''S'') = (tr' = CHR ''s'' \<or> tr' = CHR ''S'')"
  unfolding char_eq_byte [of _ "CHR ''s''"] char_eq_byte [of _ "CHR ''S''"]
  unfolding foldEqByte_def Let_def min_def max_def
  by (auto simp: byte_of_def split: if_splits)

lemma fold_k: "foldEqByte tr tr' \<Longrightarrow> (tr = CHR ''k'' \<or> tr = CHR ''K'') = (tr' = CHR ''k'' \<or> tr' = CHR ''K'')"
  unfolding char_eq_byte [of _ "CHR ''k''"] char_eq_byte [of _ "CHR ''K''"]
  unfolding foldEqByte_def Let_def min_def max_def
  by (auto simp: byte_of_def split: if_splits)

lemma EqualFold_cong_right:
  "list_all2 foldEqByte t t' \<Longrightarrow> EqualFold s t = EqualFold s t'"
proof (induction s t arbitrary: t' rule: EqualFold.induct)
  case (1 t)
  then show ?case by (cases t; cases t') auto
next
  case (2 sr s)
  then show ?case by simp
next
  case (3 sr s tr t)
  from "3.prems" obtain tr' t2 where t': "t' = tr' # t2" and h: "foldEqByte tr tr'"
    and r: "list_all2 foldEqByte t t2"
    by (auto simp: list_all2_Cons1)
  have a: "foldEqByte sr tr = foldEqByte sr tr'"
    using h by (meson foldEqByte_sym foldEqByte_trans)
  show ?case
    unfolding t' EqualFold.simps
    using "3.IH" r a fold_s [OF h] fold_k [OF h]
    by (simp cong: if_cong)
qed

lemma EqualFold_Hex: "EqualFold s (Hex a) = EqualFold s (hex a)"
proof -
  define h where "h = Keccak256 (map of_char (hex_Encode a))"
  have "list_all2 foldEqByte (hex_Encode a)
          (map (\<lambda>i. checksum_digit h i (hex_Encode a ! i)) [0..<length (hex_Encode a)])"
    by (auto simp: list_all2_conv_all_nth intro!: checksum_digit_fold hex_Encode_digits nth_mem)
  then have "list_all2 foldEqByte (hex a) (Hex a)"
    unfolding hex_def Hex_def checksumHex_def Let_def h_def
    by (simp add: foldEqByte_refl)
  then show ?thesis by (rule EqualFold_cong_right [symmetric])
qed

section \<open>The recipient string and its address\<close>

lemma fromHexChar_fold: "foldEqByte c c' \<Longrightarrow> fromHexChar c = fromHexChar c'"
  unfolding foldEqByte_def fromHexChar_def Let_def min_def max_def
  by (auto split: if_splits)

lemma DecodeString_fold:
  "list_all2 foldEqByte s s' \<Longrightarrow> fst (hex_DecodeString s) = fst (hex_DecodeString s')"
proof (induction s arbitrary: s' rule: hex_DecodeString.induct)
  case 1
  then show ?case by simp
next
  case (2 p)
  then obtain p' where "s' = [p']" by (auto simp: list_all2_Cons1)
  then show ?case by (simp split: option.splits)
next
  case (3 p q src)
  from "3.prems" obtain p' q' src' where s': "s' = p' # q' # src'"
    and p: "foldEqByte p p'" and q: "foldEqByte q q'" and r: "list_all2 foldEqByte src src'"
    by (auto simp: list_all2_Cons1)
  show ?case
  proof (cases "fromHexChar p")
    case None
    then show ?thesis using fromHexChar_fold [OF p] by (simp add: s')
  next
    case (Some a)
    note a = Some
    show ?thesis
    proof (cases "fromHexChar q")
      case None
      then show ?thesis using a fromHexChar_fold [OF p] fromHexChar_fold [OF q] by (simp add: s')
    next
      case (Some b)
      have "fst (hex_DecodeString src) = fst (hex_DecodeString src')"
        using "3.IH" [OF a Some r] .
      then show ?thesis
        using a Some fromHexChar_fold [OF p] fromHexChar_fold [OF q]
        by (cases "hex_DecodeString src"; cases "hex_DecodeString src'") (simp add: s')
    qed
  qed
qed

lemma fold_0: "foldEqByte c c' \<Longrightarrow> (c = CHR ''0'') = (c' = CHR ''0'')"
  unfolding char_eq_byte [of _ "CHR ''0''"]
  unfolding foldEqByte_def Let_def min_def max_def
  by (auto simp: byte_of_def split: if_splits)

lemma fold_x: "foldEqByte c c' \<Longrightarrow> (c = CHR ''x'' \<or> c = CHR ''X'') = (c' = CHR ''x'' \<or> c' = CHR ''X'')"
  unfolding char_eq_byte [of _ "CHR ''x''"] char_eq_byte [of _ "CHR ''X''"]
  unfolding foldEqByte_def Let_def min_def max_def
  by (auto simp: byte_of_def split: if_splits)

lemma has0xPrefix_fold:
  assumes "list_all2 foldEqByte s s'"
  shows "has0xPrefix s = has0xPrefix s'"
proof -
  have len: "length s = length s'" using assms by (rule list_all2_lengthD)
  show ?thesis
  proof (cases "length s \<ge> 2")
    case True
    then have l0: "0 < length s" and l1: "1 < length s" by arith+
    have "foldEqByte (s ! 0) (s' ! 0)" "foldEqByte (s ! 1) (s' ! 1)"
      using list_all2_nthD [OF assms l0] list_all2_nthD [OF assms l1] by simp_all
    then show ?thesis
      unfolding has0xPrefix_def using len fold_0 fold_x by metis
  next
    case False
    then show ?thesis unfolding has0xPrefix_def using len by simp
  qed
qed

lemma FromHex_fold:
  assumes "list_all2 foldEqByte s s'"
  shows "FromHex s = FromHex s'"
proof -
  have len: "length s = length s'" using assms by (rule list_all2_lengthD)
  have d: "list_all2 foldEqByte (drop 2 s) (drop 2 s')"
    using assms by (rule list_all2_dropI)
  have z: "\<And>u u'. list_all2 foldEqByte u u' \<Longrightarrow> list_all2 foldEqByte (CHR ''0'' # u) (CHR ''0'' # u')"
    by (simp add: foldEqByte_refl)
  show ?thesis
    unfolding FromHex_def Let_def Hex2Bytes_def has0xPrefix_fold [OF assms]
    using len d assms
    by (auto intro!: DecodeString_fold z)
qed

lemma HexToAddress_fold:
  "list_all2 foldEqByte s s' \<Longrightarrow> HexToAddress s = HexToAddress s'"
  unfolding HexToAddress_def by (simp add: FromHex_fold)

lemma HexToAddress_prefix:
  "\<not> has0xPrefix s \<Longrightarrow> HexToAddress (''0x'' @ s) = HexToAddress s"
proof -
  assume n: "\<not> has0xPrefix s"
  have p: "has0xPrefix (''0x'' @ s)" by (simp add: has0xPrefix_def)
  have "FromHex (''0x'' @ s) = FromHex s"
    unfolding FromHex_def [of s] FromHex_def [of "''0x'' @ s"] using n p by simp
  then show ?thesis by (simp only: HexToAddress_def)
qed

lemma foldEqByte_0: "foldEqByte c CHR ''0'' \<Longrightarrow> c = CHR ''0''"
  using fold_0 [of c "CHR ''0''"] by simp

lemma foldEqByte_x: "foldEqByte c CHR ''x'' \<Longrightarrow> c = CHR ''x'' \<or> c = CHR ''X''"
  using fold_x [of c "CHR ''x''"] by simp

lemma EqualFold_hex_prefix:
  assumes "EqualFold addr (hex r)"
  shows "has0xPrefix addr"
proof -
  from assms obtain c1 rest1 where a1: "addr = c1 # rest1"
    by (cases addr) (auto simp: hex_def)
  from assms have s1: "foldEqByte c1 CHR ''0''" and e1: "EqualFold rest1 (CHR ''x'' # hex_Encode r)"
    unfolding a1 hex_def by (auto split: if_splits)
  from e1 obtain c2 rest2 where a2: "rest1 = c2 # rest2"
    by (cases rest1) auto
  from e1 have s2: "foldEqByte c2 CHR ''x''"
    unfolding a2 by (auto split: if_splits)
  show ?thesis
    unfolding has0xPrefix_def a1 a2
    using foldEqByte_0 [OF s1] foldEqByte_x [OF s2] by auto
qed

section \<open>What \<^verbatim>\<open>checkPolicy\<close> computes\<close>

lemma whitelist_loop_eq:
  "whitelist_loop wl fr =
     fr\<lparr>allowed := allowed fr \<or> list_ex (\<lambda>addr. EqualFold addr (hex (to fr))) wl\<rparr>"
  by (induction wl) (auto simp: EqualFold_Hex)

lemma checkPolicy_body_eq:
  "checkPolicy_body fr =
     (let m = list_ex (\<lambda>addr. EqualFold addr (hex (to fr))) (Whitelist (policy fr));
          fr2 = fr\<lparr>allowed := m\<rparr>
      in (if \<not> m then Inr (Some (errors_New ''recipient not in whitelist''))
          else (case MaxAmountWei (policy fr) of
                  None \<Rightarrow> Inl NilPointerDereference
                | Some v \<Rightarrow>
                    if amount fr > v then Inr (Some (errors_New ''amount exceeds max policy limit''))
                    else Inr None), fr2))"
  unfolding checkPolicy_body_def whitelist_loop_eq Let_def Cmp_def
  by (auto split: option.splits)

lemma checkPolicy_eq:
  "checkPolicy p t a =
     (if \<not> list_ex (\<lambda>addr. EqualFold addr (hex t)) (Whitelist p)
      then Inr (Some (errors_New ''recipient not in whitelist''))
      else (case MaxAmountWei p of
              None \<Rightarrow> Inl NilPointerDereference
            | Some v \<Rightarrow>
                if a > v then Inr (Some (errors_New ''amount exceeds max policy limit''))
                else Inr None))"
  unfolding checkPolicy_def checkPolicy_body_eq Let_def
  by (simp split: option.splits)



section \<open>The scenarios, evaluated\<close>

lemma hex_a1: "hex (HexToAddress recipient_a1) = ''0xaaaaaaaaaaaaaaaaaaaaaaaaaaaaaaaaaaaaaaa1''"
  by code_simp

lemma hex_b2: "hex (HexToAddress recipient_b2) = ''0xbbbbbbbbbbbbbbbbbbbbbbbbbbbbbbbbbbbbbbb2''"
  by code_simp

lemma entry_matches_a1: "EqualFold scenario_entry (hex (HexToAddress recipient_a1))"
  by code_simp

lemma entry_differs_b2: "\<not> EqualFold scenario_entry (hex (HexToAddress recipient_b2))"
  by code_simp

section \<open>The policy evaluator\<close>

text \<open>
  Claim C7. A policy with an empty whitelist denies every recipient and every amount,
  with the whitelist reason.
\<close>

theorem checkPolicy_empty_whitelist:
  "Whitelist P = [] \<Longrightarrow>
     checkPolicy P r a = Inr (Some (errors_New ''recipient not in whitelist''))"
  by (simp add: checkPolicy_eq)

theorem checkPolicy_empty_whitelist_witness:
  "checkPolicy \<lparr>MaxAmountWei = Some 1000, Whitelist = []\<rparr> (HexToAddress recipient_a1) 1
   = Inr (Some (errors_New ''recipient not in whitelist''))"
  by (rule checkPolicy_empty_whitelist) simp

text \<open>
  Claim C4. When no whitelist entry equals, ignoring case, the normalized form of the
  recipient (\<open>0x\<close> and forty lower-case digits), the decision is the whitelist denial
  for every amount. It is never the amount denial, and it does not depend on the amount
  or on the limit of the policy (not even on a nil limit): the amount is not looked at.
\<close>

theorem checkPolicy_unlisted_recipient:
  assumes "\<forall>addr \<in> set (Whitelist P). \<not> EqualFold addr (hex r)"
  shows "checkPolicy P r a = Inr (Some (errors_New ''recipient not in whitelist''))
       \<and> checkPolicy P r a \<noteq> Inr (Some (errors_New ''amount exceeds max policy limit''))
       \<and> checkPolicy (P\<lparr>MaxAmountWei := m\<rparr>) r a' = checkPolicy P r a"
  using assms by (simp add: checkPolicy_eq list_ex_iff errors_New_def)

theorem checkPolicy_unlisted_recipient_witness:
  "\<not> EqualFold scenario_entry (hex (HexToAddress recipient_b2))
   \<and> checkPolicy scenario_policy (HexToAddress recipient_b2) 1
      = Inr (Some (errors_New ''recipient not in whitelist''))"
proof -
  have h: "\<forall>addr \<in> set (Whitelist scenario_policy).
             \<not> EqualFold addr (hex (HexToAddress recipient_b2))"
    using entry_differs_b2 by (simp add: scenario_policy_def)
  from checkPolicy_unlisted_recipient [OF h] entry_differs_b2 show ?thesis by blast
qed

text \<open>
  Claim C5, as the code has it. A recipient counts as whitelisted when an entry, as it
  is written in the policy, equals ignoring case the form \<open>0x\<close> and forty digits of
  the recipient's address; an entry written without \<open>0x\<close> whitelists nobody, though it
  spells the same address. For such a recipient and a policy with limit \<open>m\<close>: an
  amount up to and including \<open>m\<close> is allowed (the returned error is nil), an amount
  above \<open>m\<close> is denied with the amount reason.
\<close>

theorem checkPolicy_listed_recipient:
  assumes "addr \<in> set (Whitelist P)" and "EqualFold addr (hex r)"
    and "MaxAmountWei P = Some m"
  shows "(a \<le> m \<longrightarrow> checkPolicy P r a = Inr None)
       \<and> (m < a \<longrightarrow> checkPolicy P r a
                      = Inr (Some (errors_New ''amount exceeds max policy limit'')))"
  using assms by (auto simp: checkPolicy_eq list_ex_iff)

theorem checkPolicy_listed_recipient_witness:
  "checkPolicy scenario_policy (HexToAddress recipient_a1) 1000 = Inr None
   \<and> checkPolicy scenario_policy (HexToAddress recipient_a1) 1001
     = Inr (Some (errors_New ''amount exceeds max policy limit''))"
proof -
  have m: "scenario_entry \<in> set (Whitelist scenario_policy)"
    by (simp add: scenario_policy_def)
  have mx: "MaxAmountWei scenario_policy = Some 1000"
    by (simp add: scenario_policy_def)
  from checkPolicy_listed_recipient [OF m entry_matches_a1 mx, of 1000]
    checkPolicy_listed_recipient [OF m entry_matches_a1 mx, of 1001]
  show ?thesis by simp
qed

text \<open>
  Claim C9. The decision of \<^verbatim>\<open>checkPolicy\<close> depends on the policy, the recipient and
  the amount only: two frames that agree on them get the same decision, whatever else
  they hold. The call leaves the policy, the recipient and the amount as they were, and
  a second call on the memory the first one left decides the same.
\<close>

theorem checkPolicy_no_effect:
  assumes "policy fr2 = policy fr1" and "to fr2 = to fr1" and "amount fr2 = amount fr1"
  shows "fst (checkPolicy_body fr2) = fst (checkPolicy_body fr1)
       \<and> policy (snd (checkPolicy_body fr1)) = policy fr1
       \<and> to (snd (checkPolicy_body fr1)) = to fr1
       \<and> amount (snd (checkPolicy_body fr1)) = amount fr1
       \<and> fst (checkPolicy_body (snd (checkPolicy_body fr1))) = fst (checkPolicy_body fr1)
       \<and> fst (checkPolicy_body fr1) = checkPolicy (policy fr1) (to fr1) (amount fr1)"
  using assms by (simp add: checkPolicy_body_eq checkPolicy_eq Let_def split: option.splits)

theorem checkPolicy_no_effect_witness:
  "fst (checkPolicy_body \<lparr>policy = scenario_policy, to = HexToAddress recipient_a1,
                            amount = 1000, allowed = True\<rparr>)
   = fst (checkPolicy_body \<lparr>policy = scenario_policy, to = HexToAddress recipient_a1,
                              amount = 1000, allowed = False\<rparr>)
   \<and> policy (snd (checkPolicy_body \<lparr>policy = scenario_policy, to = HexToAddress recipient_a1,
                                       amount = 1000, allowed = False\<rparr>)) = scenario_policy"
  using checkPolicy_no_effect
    [of "\<lparr>policy = scenario_policy, to = HexToAddress recipient_a1,
           amount = 1000, allowed = True\<rparr>"
        "\<lparr>policy = scenario_policy, to = HexToAddress recipient_a1,
           amount = 1000, allowed = False\<rparr>"]
  by simp

section \<open>Runs of the pipeline\<close>

lemma sign_and_print_cases:
  fixes e :: "('k, 's) env" and f :: flags and t :: address and amt :: int
  defines "tx \<equiv> NewTransaction (nonce f) t amt 21000 1000000000 None"
  obtains
    (sign) err where
      "SignTx e tx (sint (chainID f)) k = Inl err"
      "sign_and_print e f k t amt tr =
         (Fatal (FailedToSignTx err),
          tr @ [EvNewTransaction tx, EvSignTx tx (sint (chainID f)) k])"
  | (marshal) signedTx err where
      "SignTx e tx (sint (chainID f)) k = Inr signedTx"
      "MarshalBinary e signedTx = Inl err"
      "sign_and_print e f k t amt tr =
         (Fatal (FailedToSerializeTx err),
          tr @ [EvNewTransaction tx, EvSignTx tx (sint (chainID f)) k, EvMarshalBinary signedTx])"
  | (printed) signedTx rawTxBytes where
      "SignTx e tx (sint (chainID f)) k = Inr signedTx"
      "MarshalBinary e signedTx = Inr rawTxBytes"
      "sign_and_print e f k t amt tr =
         (Printed (''RawTxHex: '' @ hex_Encode rawTxBytes),
          tr @ [EvNewTransaction tx, EvSignTx tx (sint (chainID f)) k, EvMarshalBinary signedTx,
                EvPrintln (''RawTxHex: '' @ hex_Encode rawTxBytes)])"
proof (cases "SignTx e tx (sint (chainID f)) k")
  case (Inl err)
  then show ?thesis
    using sign by (simp add: sign_and_print_def tx_def Let_def)
next
  case (Inr signedTx)
  show ?thesis
  proof (cases "MarshalBinary e signedTx")
    case (Inl err)
    then show ?thesis
      using Inr marshal by (simp add: sign_and_print_def tx_def Let_def)
  next
    case (Inr rawTxBytes)
    then show ?thesis
      using \<open>SignTx e tx (sint (chainID f)) k = Inr signedTx\<close> printed
      by (simp add: sign_and_print_def tx_def Let_def)
  qed
qed

lemma main_cases:
  fixes e :: "('k, 's) env" and f :: flags
  defines "t \<equiv> HexToAddress (toAddr f)"
  defines "tr2 \<equiv> [EvLoadPrivateKey (privKeyHex f), EvLoadPolicy (policyFile f)]"
  obtains
    (required)
      "privKeyHex f = [] \<or> toAddr f = []"
      "main e f = (Fatal KeyAndToRequired, [])"
  | (key) err where
      "privKeyHex f \<noteq> []" "toAddr f \<noteq> []"
      "loadPrivateKey e (privKeyHex f) = Inl err"
      "main e f = (Fatal (FailedToLoadPrivateKey err), [EvLoadPrivateKey (privKeyHex f)])"
  | (policy) k err where
      "privKeyHex f \<noteq> []" "toAddr f \<noteq> []"
      "loadPrivateKey e (privKeyHex f) = Inr k"
      "loadPolicy (ReadFile e) (policyFile f) = Inl err"
      "main e f = (Fatal (FailedToLoadPolicy err), tr2)"
  | (amount) k pol where
      "privKeyHex f \<noteq> []" "toAddr f \<noteq> []"
      "loadPrivateKey e (privKeyHex f) = Inr k"
      "loadPolicy (ReadFile e) (policyFile f) = Inr pol"
      "SetString (amountWeiStr f) 10 = None"
      "main e f = (Fatal InvalidAmount, tr2)"
  | (panic) k pol amt p where
      "privKeyHex f \<noteq> []" "toAddr f \<noteq> []"
      "loadPrivateKey e (privKeyHex f) = Inr k"
      "loadPolicy (ReadFile e) (policyFile f) = Inr pol"
      "SetString (amountWeiStr f) 10 = Some amt"
      "checkPolicy pol t amt = Inl p"
      "main e f = (Panicked p, tr2 @ [EvCheckPolicy pol t amt])"
  | (deny) k pol amt err where
      "privKeyHex f \<noteq> []" "toAddr f \<noteq> []"
      "loadPrivateKey e (privKeyHex f) = Inr k"
      "loadPolicy (ReadFile e) (policyFile f) = Inr pol"
      "SetString (amountWeiStr f) 10 = Some amt"
      "checkPolicy pol t amt = Inr (Some err)"
      "main e f = (Fatal (PolicyCheckFailed err), tr2 @ [EvCheckPolicy pol t amt])"
  | (allow) k pol amt where
      "privKeyHex f \<noteq> []" "toAddr f \<noteq> []"
      "loadPrivateKey e (privKeyHex f) = Inr k"
      "loadPolicy (ReadFile e) (policyFile f) = Inr pol"
      "SetString (amountWeiStr f) 10 = Some amt"
      "checkPolicy pol t amt = Inr None"
      "main e f = sign_and_print e f k t amt (tr2 @ [EvCheckPolicy pol t amt])"
proof (cases "privKeyHex f = [] \<or> toAddr f = []")
  case True
  then show ?thesis using required by (simp add: main_def)
next
  case False
  then have ne: "privKeyHex f \<noteq> []" "toAddr f \<noteq> []" by simp_all
  show ?thesis
  proof (cases "loadPrivateKey e (privKeyHex f)")
    case (Inl err)
    then show ?thesis using ne key by (simp add: main_def)
  next
    case (Inr k)
    note k = Inr
    show ?thesis
    proof (cases "loadPolicy (ReadFile e) (policyFile f)")
      case (Inl err)
      then show ?thesis using ne k policy by (simp add: main_def tr2_def)
    next
      case (Inr pol)
      note pol = Inr
      show ?thesis
      proof (cases "SetString (amountWeiStr f) 10")
        case None
        then show ?thesis using ne k pol amount by (simp add: main_def tr2_def)
      next
        case (Some amt)
        note amt = Some
        show ?thesis
        proof (cases "checkPolicy pol t amt")
          case (Inl p)
          then show ?thesis
            using ne k pol amt panic by (simp add: main_def tr2_def t_def Let_def)
        next
          case (Inr r)
          show ?thesis
          proof (cases r)
            case None
            then show ?thesis
              using ne k pol amt Inr allow by (simp add: main_def tr2_def t_def Let_def)
          next
            case (Some err)
            then show ?thesis
              using ne k pol amt Inr deny by (simp add: main_def tr2_def t_def Let_def)
          qed
        qed
      qed
    qed
  qed
qed

lemma main_reaches_check:
  assumes "privKeyHex f \<noteq> []" and "toAddr f \<noteq> []"
    and "loadPrivateKey e (privKeyHex f) = Inr k"
    and "loadPolicy (ReadFile e) (policyFile f) = Inr pol"
    and "SetString (amountWeiStr f) 10 = Some amt"
  shows "main e f =
     (case checkPolicy pol (HexToAddress (toAddr f)) amt of
        Inl p \<Rightarrow>
          (Panicked p,
           [EvLoadPrivateKey (privKeyHex f), EvLoadPolicy (policyFile f),
            EvCheckPolicy pol (HexToAddress (toAddr f)) amt])
      | Inr (Some err) \<Rightarrow>
          (Fatal (PolicyCheckFailed err),
           [EvLoadPrivateKey (privKeyHex f), EvLoadPolicy (policyFile f),
            EvCheckPolicy pol (HexToAddress (toAddr f)) amt])
      | Inr None \<Rightarrow>
          sign_and_print e f k (HexToAddress (toAddr f)) amt
           [EvLoadPrivateKey (privKeyHex f), EvLoadPolicy (policyFile f),
            EvCheckPolicy pol (HexToAddress (toAddr f)) amt])"
  using assms by (simp add: main_def Let_def split: sum.splits option.splits)

lemma main_allow_trace:
  fixes e :: "('k, 's) env" and f :: flags
  assumes "main e f = sign_and_print e f k t amt tr3"
  obtains out post where
    "main e f = (out, tr3 @ EvNewTransaction (NewTransaction (nonce f) t amt 21000 1000000000 None)
                        # EvSignTx (NewTransaction (nonce f) t amt 21000 1000000000 None)
                            (sint (chainID f)) k # post)"
    "\<And>tx c k'. EvSignTx tx c k' \<notin> set post"
    "\<And>tx. EvNewTransaction tx \<notin> set post"
    "\<And>pol t' a. EvCheckPolicy pol t' a \<notin> set post"
    "\<And>err. out \<noteq> Fatal (PolicyCheckFailed err)"
proof (cases rule: sign_and_print_cases [of e f t amt k tr3])
  case (sign err)
  show ?thesis
    by (rule that [of "Fatal (FailedToSignTx err)" "[]"]) (simp_all add: assms sign)
next
  case (marshal signedTx err)
  show ?thesis
    by (rule that [of "Fatal (FailedToSerializeTx err)" "[EvMarshalBinary signedTx]"])
       (simp_all add: assms marshal)
next
  case (printed signedTx rawTxBytes)
  show ?thesis
    by (rule that [of "Printed (''RawTxHex: '' @ hex_Encode rawTxBytes)"
          "[EvMarshalBinary signedTx, EvPrintln (''RawTxHex: '' @ hex_Encode rawTxBytes)]"])
       (simp_all add: assms printed)
qed

lemma main_output_signed:
  fixes e :: "('k, 's) env" and f :: flags
  assumes "main e f = sign_and_print e f k t amt tr3"
    and "fst (main e f) = Printed line \<or> EvPrintln line \<in> set (snd (main e f))"
    and "\<And>l. EvPrintln l \<notin> set tr3"
  shows "EvSignTx (NewTransaction (nonce f) t amt 21000 1000000000 None) (sint (chainID f)) k
           \<in> set (snd (main e f))"
  by (cases rule: sign_and_print_cases [of e f t amt k tr3]) (simp_all add: assms(1))

lemma sign_event_after_allow:
  "EvSignTx tx c k \<in> set (snd (main e f)) \<Longrightarrow>
      (\<exists>pol amt pre post.
         snd (main e f) = pre @ EvCheckPolicy pol (HexToAddress (toAddr f)) amt # post
         \<and> EvSignTx tx c k \<notin> set pre
         \<and> SetString (amountWeiStr f) 10 = Some amt
         \<and> loadPolicy (ReadFile e) (policyFile f) = Inr pol
         \<and> checkPolicy pol (HexToAddress (toAddr f)) amt = Inr None)"
proof (cases rule: main_cases [of f e])
  case (allow k' pol amt)
  let ?t = "HexToAddress (toAddr f)"
  let ?pre = "[EvLoadPrivateKey (privKeyHex f), EvLoadPolicy (policyFile f)]"
  assume s: "EvSignTx tx c k \<in> set (snd (main e f))"
  show ?thesis
  proof (rule main_allow_trace [OF allow(7)])
    fix out post
    assume run: "main e f =
        (out, (?pre @ [EvCheckPolicy pol ?t amt])
              @ EvNewTransaction (NewTransaction (nonce f) ?t amt 21000 1000000000 None)
              # EvSignTx (NewTransaction (nonce f) ?t amt 21000 1000000000 None)
                  (sint (chainID f)) k' # post)"
    have shape: "snd (main e f) = ?pre @ EvCheckPolicy pol ?t amt
         # (EvNewTransaction (NewTransaction (nonce f) ?t amt 21000 1000000000 None)
         # EvSignTx (NewTransaction (nonce f) ?t amt 21000 1000000000 None)
                  (sint (chainID f)) k' # post)"
      by (simp add: run)
    have pre: "EvSignTx tx c k \<notin> set ?pre" by simp
    from shape pre allow(5) allow(4) allow(6) show ?thesis by blast
  qed
qed simp_all

lemma deny_run:
  assumes "EvCheckPolicy pol t amt \<in> set (snd (main e f))"
    and "checkPolicy pol t amt = Inr (Some reason)"
  shows "main e f = (Fatal (PolicyCheckFailed reason),
           [EvLoadPrivateKey (privKeyHex f), EvLoadPolicy (policyFile f),
            EvCheckPolicy pol t amt])"
proof (cases rule: main_cases [of f e])
  case (panic k pol' amt' p)
  with assms show ?thesis by auto
next
  case (deny k pol' amt' err)
  with assms show ?thesis by auto
next
  case (allow k pol' amt')
  show ?thesis
  proof (rule main_allow_trace [OF allow(7)])
    fix out post
    assume run: "main e f =
        (out, ([EvLoadPrivateKey (privKeyHex f), EvLoadPolicy (policyFile f)]
                @ [EvCheckPolicy pol' (HexToAddress (toAddr f)) amt'])
              @ EvNewTransaction (NewTransaction (nonce f) (HexToAddress (toAddr f)) amt' 21000 1000000000 None)
              # EvSignTx (NewTransaction (nonce f) (HexToAddress (toAddr f)) amt' 21000 1000000000 None)
                  (sint (chainID f)) k # post)"
      and nocheck: "\<And>pol t' a. EvCheckPolicy pol t' a \<notin> set post"
    from assms(1) have "EvCheckPolicy pol t amt = EvCheckPolicy pol' (HexToAddress (toAddr f)) amt'"
      using nocheck [of pol t amt] by (simp add: run)
    with assms(2) allow(6) show ?thesis by simp
  qed
qed (use assms in simp_all)

lemma output_after_sign:
  assumes "fst (main e f) = Printed line \<or> EvPrintln line \<in> set (snd (main e f))"
  shows "\<exists>tx c k. EvSignTx tx c k \<in> set (snd (main e f))"
proof (cases rule: main_cases [of f e])
  case (allow k pol amt)
  have "EvSignTx (NewTransaction (nonce f) (HexToAddress (toAddr f)) amt 21000 1000000000 None)
          (sint (chainID f)) k \<in> set (snd (main e f))"
    by (rule main_output_signed [OF allow(7) assms]) simp
  then show ?thesis by blast
qed (use assms in simp_all)

section \<open>Parsing the amount\<close>

lemma digitVal_decimal:
  "(\<exists>d. digitVal ch = Some d \<and> d < 10) \<longleftrightarrow> decimal_digit ch"
  unfolding digitVal_def decimal_digit_def Let_def by auto

lemma digitVal_of_decimal: "decimal_digit ch \<Longrightarrow> digitVal ch = Some (byte_of ch - 48)"
  unfolding digitVal_def decimal_digit_def Let_def by auto

lemma scanDigits_decimal:
  "list_all decimal_digit ds \<Longrightarrow>
     scanDigits 10 ds z count
       = (foldl (\<lambda>z ch. z * 10 + (byte_of ch - 48)) z ds, count + length ds, [])"
proof (induction ds arbitrary: z count)
  case Nil
  then show ?case by simp
next
  case (Cons ch ds)
  then have d: "decimal_digit ch" and r: "list_all decimal_digit ds" by simp_all
  have lt: "byte_of ch - 48 < 10" using d by (auto simp: decimal_digit_def)
  show ?case
    using Cons.IH [OF r] lt by (simp add: digitVal_of_decimal [OF d])
qed

lemma scanDigits_rest:
  "scanDigits 10 r z count = (z', count', []) \<Longrightarrow> list_all decimal_digit r"
proof (induction r arbitrary: z count)
  case Nil
  then show ?case by simp
next
  case (Cons ch r)
  show ?case
  proof (cases "digitVal ch")
    case None
    with Cons.prems show ?thesis by simp
  next
    case (Some d)
    show ?thesis
    proof (cases "d \<ge> 10")
      case True
      with Some Cons.prems show ?thesis by simp
    next
      case False
      then have "decimal_digit ch" using Some digitVal_decimal [of ch] by auto
      moreover have "list_all decimal_digit r"
        using Cons.IH [of "z * 10 + d" "Suc count"] Cons.prems Some False by simp
      ultimately show ?thesis by simp
    qed
  qed
qed

lemma scanDigits_count:
  "scanDigits b r z count = (z', count', rest) \<Longrightarrow> count' = count + (length r - length rest)
     \<and> length rest \<le> length r"
proof (induction r arbitrary: z count)
  case Nil
  then show ?case by simp
next
  case (Cons ch r)
  show ?case
  proof (cases "digitVal ch")
    case None
    with Cons.prems show ?thesis by auto
  next
    case (Some d)
    show ?thesis
    proof (cases "d \<ge> b")
      case True
      with Some Cons.prems show ?thesis by auto
    next
      case False
      with Cons.IH [of "z * b + d" "Suc count"] Cons.prems Some show ?thesis by auto
    qed
  qed
qed

lemma SetString_digits:
  assumes "ds \<noteq> []" and "list_all decimal_digit ds"
  shows "SetString ds 10 = Some (int (decimal ds))"
    and "SetString (CHR ''-'' # ds) 10 = Some (- int (decimal ds))"
    and "SetString (CHR ''+'' # ds) 10 = Some (int (decimal ds))"
proof -
  obtain c cs where ds: "ds = c # cs" using assms(1) by (cases ds) auto
  have c: "decimal_digit c" using assms(2) ds by simp
  have nsign: "c \<noteq> CHR ''-''" "c \<noteq> CHR ''+''"
    using c by (auto simp: decimal_digit_def byte_of_def)
  have sc: "scanDigits 10 ds 0 0 = (decimal ds, length ds, [])"
    using scanDigits_decimal [OF assms(2), of 0 0] by (simp add: decimal_def)
  show "SetString ds 10 = Some (int (decimal ds))"
    using sc nsign assms(1) by (simp add: SetString_def scanSign_def ds)
  show "SetString (CHR ''-'' # ds) 10 = Some (- int (decimal ds))"
    using sc assms(1) by (simp add: SetString_def scanSign_def)
  show "SetString (CHR ''+'' # ds) 10 = Some (int (decimal ds))"
    using sc assms(1) by (simp add: SetString_def scanSign_def)
qed

lemma SetString_form:
  assumes "SetString s 10 = Some v"
  shows "\<exists>ds. ds \<noteq> [] \<and> list_all decimal_digit ds
            \<and> (s = ds \<or> s = CHR ''-'' # ds \<or> s = CHR ''+'' # ds)"
proof -
  from assms obtain neg r where sg: "scanSign s = Some (neg, r)"
    by (auto simp: SetString_def split: option.splits)
  from assms sg obtain z count where sc: "scanDigits 10 r 0 0 = (z, count, [])" and cnt: "count \<noteq> 0"
    by (auto simp: SetString_def split: prod.splits if_splits)
  have dig: "list_all decimal_digit r" using scanDigits_rest [OF sc] .
  have ne: "r \<noteq> []" using scanDigits_count [OF sc] cnt by auto
  have "s = r \<or> s = CHR ''-'' # r \<or> s = CHR ''+'' # r"
    using sg by (auto simp: scanSign_def split: list.splits if_splits)
  with dig ne show ?thesis by blast
qed

lemma no_check_without_amount:
  assumes "SetString (amountWeiStr f) 10 = None"
  shows "EvCheckPolicy pol t a \<notin> set (snd (main e f))"
    and "EvSignTx tx c k \<notin> set (snd (main e f))"
  by (cases rule: main_cases [of f e]; use assms in simp)+

lemma invalid_amount_run:
  assumes "SetString (amountWeiStr f) 10 = None"
    and "privKeyHex f \<noteq> []" and "toAddr f \<noteq> []"
    and "loadPrivateKey e (privKeyHex f) = Inr k"
    and "loadPolicy (ReadFile e) (policyFile f) = Inr pol"
  shows "main e f = (Fatal InvalidAmount,
                     [EvLoadPrivateKey (privKeyHex f), EvLoadPolicy (policyFile f)])"
  using assms by (simp add: main_def)

lemma check_event_amount:
  assumes "EvCheckPolicy pol t a \<in> set (snd (main e f))"
  shows "SetString (amountWeiStr f) 10 = Some a \<and> t = HexToAddress (toAddr f)
         \<and> loadPolicy (ReadFile e) (policyFile f) = Inr pol"
proof (cases rule: main_cases [of f e])
  case (allow k pol' amt')
  show ?thesis
  proof (rule main_allow_trace [OF allow(7)])
    fix out post
    assume run: "main e f =
        (out, ([EvLoadPrivateKey (privKeyHex f), EvLoadPolicy (policyFile f)]
                @ [EvCheckPolicy pol' (HexToAddress (toAddr f)) amt'])
              @ EvNewTransaction (NewTransaction (nonce f) (HexToAddress (toAddr f)) amt' 21000 1000000000 None)
              # EvSignTx (NewTransaction (nonce f) (HexToAddress (toAddr f)) amt' 21000 1000000000 None)
                  (sint (chainID f)) k # post)"
      and nocheck: "\<And>pol t' a. EvCheckPolicy pol t' a \<notin> set post"
    from assms have "EvCheckPolicy pol t a = EvCheckPolicy pol' (HexToAddress (toAddr f)) amt'"
      using nocheck [of pol t a] by (simp add: run)
    with allow(4,5) show ?thesis by simp
  qed
qed (use assms in auto)

section \<open>Runs of the scenarios\<close>

lemma scenario_Unmarshal: "Unmarshal (Valid scenario_json) = Inr scenario_policy"
  by code_simp

lemma scenario_loadPolicy:
  "loadPolicy (ReadFile (scenario_env (Valid scenario_json))) file = Inr scenario_policy"
  by (simp add: loadPolicy_def scenario_env_def scenario_Unmarshal)

lemma scenario_key:
  "loadPrivateKey (scenario_env c) ''0x01'' = Inr ''01''"
  by (simp add: loadPrivateKey_def scenario_env_def TrimPrefix_def)

lemma scenario_fields:
  "privKeyHex (scenario_flags r a) = ''0x01''" "toAddr (scenario_flags r a) = r"
  "amountWeiStr (scenario_flags r a) = a" "policyFile (scenario_flags r a) = ''policy.json''"
  "nonce (scenario_flags r a) = 7" "chainID (scenario_flags r a) = 1"
  by (simp_all add: scenario_flags_def)

lemma amount_1: "SetString ''1'' 10 = Some 1"
  by code_simp

lemma amount_1000: "SetString ''1000'' 10 = Some 1000"
  by code_simp

lemma amount_minus_5: "SetString ''-5'' 10 = Some (- 5)"
  by code_simp

lemma recipients_nonempty: "recipient_a1 \<noteq> []" "recipient_b2 \<noteq> []"
  by (simp_all add: recipient_a1_def recipient_b2_def)

lemma scenario_deny_b2:
  "checkPolicy scenario_policy (HexToAddress recipient_b2) 1
     = Inr (Some (errors_New ''recipient not in whitelist''))"
  using entry_differs_b2 by (simp add: checkPolicy_eq scenario_policy_def)

lemma scenario_allow_a1:
  "a \<le> 1000 \<Longrightarrow> checkPolicy scenario_policy (HexToAddress recipient_a1) a = Inr None"
  using entry_matches_a1 by (simp add: checkPolicy_eq scenario_policy_def)

lemma scenario_run_b2:
  "main (scenario_env (Valid scenario_json)) (scenario_flags recipient_b2 ''1'')
     = (Fatal (PolicyCheckFailed (errors_New ''recipient not in whitelist'')),
        [EvLoadPrivateKey ''0x01'', EvLoadPolicy ''policy.json'',
         EvCheckPolicy scenario_policy (HexToAddress recipient_b2) 1])"
proof -
  have "main (scenario_env (Valid scenario_json)) (scenario_flags recipient_b2 ''1'')
      = (case checkPolicy scenario_policy
                (HexToAddress (toAddr (scenario_flags recipient_b2 ''1''))) 1 of
        Inl p \<Rightarrow>
          (Panicked p,
           [EvLoadPrivateKey (privKeyHex (scenario_flags recipient_b2 ''1'')),
            EvLoadPolicy (policyFile (scenario_flags recipient_b2 ''1'')),
            EvCheckPolicy scenario_policy
              (HexToAddress (toAddr (scenario_flags recipient_b2 ''1''))) 1])
      | Inr (Some err) \<Rightarrow>
          (Fatal (PolicyCheckFailed err),
           [EvLoadPrivateKey (privKeyHex (scenario_flags recipient_b2 ''1'')),
            EvLoadPolicy (policyFile (scenario_flags recipient_b2 ''1'')),
            EvCheckPolicy scenario_policy
              (HexToAddress (toAddr (scenario_flags recipient_b2 ''1''))) 1])
      | Inr None \<Rightarrow>
          sign_and_print (scenario_env (Valid scenario_json))
           (scenario_flags recipient_b2 ''1'') ''01''
           (HexToAddress (toAddr (scenario_flags recipient_b2 ''1''))) 1
           [EvLoadPrivateKey (privKeyHex (scenario_flags recipient_b2 ''1'')),
            EvLoadPolicy (policyFile (scenario_flags recipient_b2 ''1'')),
            EvCheckPolicy scenario_policy
              (HexToAddress (toAddr (scenario_flags recipient_b2 ''1''))) 1])"
    by (rule main_reaches_check)
       (simp_all add: scenario_fields recipients_nonempty scenario_key scenario_loadPolicy amount_1)
  then show ?thesis by (simp add: scenario_fields scenario_deny_b2)
qed

lemma scenario_sign_and_print:
  "sign_and_print (scenario_env c) (scenario_flags r amt) k t a tr
     = (Printed ''RawTxHex: 01'',
        tr @ [EvNewTransaction \<lparr>Nonce = 7, To = t, Value = a,
                 Gas = 21000, GasPrice = 1000000000, Data = []\<rparr>,
              EvSignTx \<lparr>Nonce = 7, To = t, Value = a,
                 Gas = 21000, GasPrice = 1000000000, Data = []\<rparr> 1 k,
              EvMarshalBinary (\<lparr>Nonce = 7, To = t, Value = a,
                 Gas = 21000, GasPrice = 1000000000, Data = []\<rparr>, 1),
              EvPrintln ''RawTxHex: 01''])"
  by (simp add: sign_and_print_def scenario_env_def scenario_fields NewTransaction_def
        Let_def hextable_def)

lemma scenario_run_allowed:
  assumes "SetString amt 10 = Some a" and "a \<le> 1000"
  shows "main (scenario_env (Valid scenario_json)) (scenario_flags recipient_a1 amt)
     = (Printed ''RawTxHex: 01'',
        [EvLoadPrivateKey ''0x01'', EvLoadPolicy ''policy.json'',
         EvCheckPolicy scenario_policy (HexToAddress recipient_a1) a,
         EvNewTransaction \<lparr>Nonce = 7, To = HexToAddress recipient_a1, Value = a,
            Gas = 21000, GasPrice = 1000000000, Data = []\<rparr>,
         EvSignTx \<lparr>Nonce = 7, To = HexToAddress recipient_a1, Value = a,
            Gas = 21000, GasPrice = 1000000000, Data = []\<rparr> 1 ''01'',
         EvMarshalBinary (\<lparr>Nonce = 7, To = HexToAddress recipient_a1, Value = a,
            Gas = 21000, GasPrice = 1000000000, Data = []\<rparr>, 1),
         EvPrintln ''RawTxHex: 01''])"
proof -
  have "main (scenario_env (Valid scenario_json)) (scenario_flags recipient_a1 amt)
      = sign_and_print (scenario_env (Valid scenario_json))
           (scenario_flags recipient_a1 amt) ''01'' (HexToAddress recipient_a1) a
           [EvLoadPrivateKey ''0x01'', EvLoadPolicy ''policy.json'',
            EvCheckPolicy scenario_policy (HexToAddress recipient_a1) a]"
    using main_reaches_check [of "scenario_flags recipient_a1 amt"
        "scenario_env (Valid scenario_json)" "''01''" scenario_policy a]
    by (simp add: scenario_fields recipients_nonempty scenario_key scenario_loadPolicy assms
          scenario_allow_a1)
  then show ?thesis by (simp add: scenario_sign_and_print)
qed

section \<open>The order of the pipeline\<close>

text \<open>
  Claim C1. In every run of \<^verbatim>\<open>main\<close>: a call of the signer comes after a call of
  \<^verbatim>\<open>checkPolicy\<close>, on the policy loaded, the address of the recipient and the amount
  parsed, that returned nil. When \<^verbatim>\<open>checkPolicy\<close> was called and returned an error,
  the run ends with \<open>policy check failed\<close> and that error, and its calls are the two
  loads and the check: the signer and the encoder are not called and nothing is
  printed. Such a run exists whenever key, policy and amount load and the policy denies.
  A printed line comes after a call of the signer.
\<close>

theorem sign_only_after_allow:
  "(\<forall>tx c k. EvSignTx tx c k \<in> set (snd (main e f)) \<longrightarrow>
      (\<exists>pol amt pre post.
         snd (main e f) = pre @ EvCheckPolicy pol (HexToAddress (toAddr f)) amt # post
         \<and> EvSignTx tx c k \<notin> set pre
         \<and> SetString (amountWeiStr f) 10 = Some amt
         \<and> loadPolicy (ReadFile e) (policyFile f) = Inr pol
         \<and> checkPolicy pol (HexToAddress (toAddr f)) amt = Inr None))
   \<and> (\<forall>pol t amt reason.
         EvCheckPolicy pol t amt \<in> set (snd (main e f))
         \<and> checkPolicy pol t amt = Inr (Some reason) \<longrightarrow>
           main e f = (Fatal (PolicyCheckFailed reason),
                       [EvLoadPrivateKey (privKeyHex f), EvLoadPolicy (policyFile f),
                        EvCheckPolicy pol t amt])
           \<and> (\<forall>tx c k. EvSignTx tx c k \<notin> set (snd (main e f)))
           \<and> (\<forall>s. EvMarshalBinary s \<notin> set (snd (main e f)))
           \<and> (\<forall>line. EvPrintln line \<notin> set (snd (main e f))))
   \<and> (\<forall>k pol amt reason.
         privKeyHex f \<noteq> [] \<and> toAddr f \<noteq> []
         \<and> loadPrivateKey e (privKeyHex f) = Inr k
         \<and> loadPolicy (ReadFile e) (policyFile f) = Inr pol
         \<and> SetString (amountWeiStr f) 10 = Some amt
         \<and> checkPolicy pol (HexToAddress (toAddr f)) amt = Inr (Some reason) \<longrightarrow>
           EvCheckPolicy pol (HexToAddress (toAddr f)) amt \<in> set (snd (main e f)))
   \<and> (\<forall>line. fst (main e f) = Printed line \<or> EvPrintln line \<in> set (snd (main e f)) \<longrightarrow>
         (\<exists>tx c k. EvSignTx tx c k \<in> set (snd (main e f))))"
proof (intro conjI allI impI)
  fix tx c k
  assume "EvSignTx tx c k \<in> set (snd (main e f))"
  then show "\<exists>pol amt pre post.
         snd (main e f) = pre @ EvCheckPolicy pol (HexToAddress (toAddr f)) amt # post
         \<and> EvSignTx tx c k \<notin> set pre
         \<and> SetString (amountWeiStr f) 10 = Some amt
         \<and> loadPolicy (ReadFile e) (policyFile f) = Inr pol
         \<and> checkPolicy pol (HexToAddress (toAddr f)) amt = Inr None"
    by (rule sign_event_after_allow)
next
  fix pol t amt reason
  assume h: "EvCheckPolicy pol t amt \<in> set (snd (main e f))
         \<and> checkPolicy pol t amt = Inr (Some reason)"
  then have run: "main e f = (Fatal (PolicyCheckFailed reason),
                       [EvLoadPrivateKey (privKeyHex f), EvLoadPolicy (policyFile f),
                        EvCheckPolicy pol t amt])"
    using deny_run [of pol t amt e f reason] by simp
  show "main e f = (Fatal (PolicyCheckFailed reason),
                       [EvLoadPrivateKey (privKeyHex f), EvLoadPolicy (policyFile f),
                        EvCheckPolicy pol t amt])"
    by (rule run)
  fix tx c k show "EvSignTx tx c k \<notin> set (snd (main e f))" by (simp add: run)
next
  fix pol t amt reason s
  assume h: "EvCheckPolicy pol t amt \<in> set (snd (main e f))
         \<and> checkPolicy pol t amt = Inr (Some reason)"
  then have run: "main e f = (Fatal (PolicyCheckFailed reason),
                       [EvLoadPrivateKey (privKeyHex f), EvLoadPolicy (policyFile f),
                        EvCheckPolicy pol t amt])"
    using deny_run [of pol t amt e f reason] by simp
  show "EvMarshalBinary s \<notin> set (snd (main e f))" by (simp add: run)
next
  fix pol t amt reason line
  assume h: "EvCheckPolicy pol t amt \<in> set (snd (main e f))
         \<and> checkPolicy pol t amt = Inr (Some reason)"
  then have run: "main e f = (Fatal (PolicyCheckFailed reason),
                       [EvLoadPrivateKey (privKeyHex f), EvLoadPolicy (policyFile f),
                        EvCheckPolicy pol t amt])"
    using deny_run [of pol t amt e f reason] by simp
  show "EvPrintln line \<notin> set (snd (main e f))" by (simp add: run)
next
  fix k pol amt reason
  assume h: "privKeyHex f \<noteq> [] \<and> toAddr f \<noteq> []
         \<and> loadPrivateKey e (privKeyHex f) = Inr k
         \<and> loadPolicy (ReadFile e) (policyFile f) = Inr pol
         \<and> SetString (amountWeiStr f) 10 = Some amt
         \<and> checkPolicy pol (HexToAddress (toAddr f)) amt = Inr (Some reason)"
  then show "EvCheckPolicy pol (HexToAddress (toAddr f)) amt \<in> set (snd (main e f))"
    using main_reaches_check [of f e k pol amt] by simp
next
  fix line
  assume "fst (main e f) = Printed line \<or> EvPrintln line \<in> set (snd (main e f))"
  then show "\<exists>tx c k. EvSignTx tx c k \<in> set (snd (main e f))"
    by (rule output_after_sign)
qed

theorem sign_only_after_allow_witness:
  "EvCheckPolicy scenario_policy (HexToAddress recipient_b2) 1
     \<in> set (snd (main (scenario_env (Valid scenario_json)) (scenario_flags recipient_b2 ''1'')))
   \<and> checkPolicy scenario_policy (HexToAddress recipient_b2) 1
       = Inr (Some (errors_New ''recipient not in whitelist''))
   \<and> main (scenario_env (Valid scenario_json)) (scenario_flags recipient_b2 ''1'')
       = (Fatal (PolicyCheckFailed (errors_New ''recipient not in whitelist'')),
          [EvLoadPrivateKey ''0x01'', EvLoadPolicy ''policy.json'',
           EvCheckPolicy scenario_policy (HexToAddress recipient_b2) 1])
   \<and> (\<exists>tx c k. EvSignTx tx c k
         \<in> set (snd (main (scenario_env (Valid scenario_json))
                          (scenario_flags recipient_a1 ''1000''))))"
proof -
  let ?e = "scenario_env (Valid scenario_json)"
  let ?f = "scenario_flags recipient_b2 ''1''"
  let ?g = "scenario_flags recipient_a1 ''1000''"
  have ev: "EvCheckPolicy scenario_policy (HexToAddress recipient_b2) 1 \<in> set (snd (main ?e ?f))"
    by (simp add: scenario_run_b2)
  note th = sign_only_after_allow [of ?e ?f]
  from th ev scenario_deny_b2
  have run: "main ?e ?f = (Fatal (PolicyCheckFailed (errors_New ''recipient not in whitelist'')),
          [EvLoadPrivateKey (privKeyHex ?f), EvLoadPolicy (policyFile ?f),
           EvCheckPolicy scenario_policy (HexToAddress recipient_b2) 1])"
    by blast
  have pr: "fst (main ?e ?g) = Printed ''RawTxHex: 01''"
    by (simp add: scenario_run_allowed [OF amount_1000])
  from sign_only_after_allow [of ?e ?g] pr
  have sg: "\<exists>tx c k. EvSignTx tx c k \<in> set (snd (main ?e ?g))"
    by blast
  from ev scenario_deny_b2 run sg show ?thesis by (simp add: scenario_fields)
qed

section \<open>The transaction and the recipient\<close>

lemma tx_event:
  assumes "EvNewTransaction tx \<in> set (snd (main e f))
           \<or> (\<exists>c k. EvSignTx tx c k \<in> set (snd (main e f)))"
  shows "\<exists>pol amt. tx = NewTransaction (nonce f) (HexToAddress (toAddr f)) amt 21000 1000000000 None
           \<and> SetString (amountWeiStr f) 10 = Some amt
           \<and> loadPolicy (ReadFile e) (policyFile f) = Inr pol
           \<and> checkPolicy pol (HexToAddress (toAddr f)) amt = Inr None"
proof (cases rule: main_cases [of f e])
  case (allow k pol amt)
  show ?thesis
  proof (rule main_allow_trace [OF allow(7)])
    fix out post
    assume run: "main e f =
        (out, ([EvLoadPrivateKey (privKeyHex f), EvLoadPolicy (policyFile f)]
                @ [EvCheckPolicy pol (HexToAddress (toAddr f)) amt])
              @ EvNewTransaction (NewTransaction (nonce f) (HexToAddress (toAddr f)) amt 21000 1000000000 None)
              # EvSignTx (NewTransaction (nonce f) (HexToAddress (toAddr f)) amt 21000 1000000000 None)
                  (sint (chainID f)) k # post)"
      and nosign: "\<And>tx c k'. EvSignTx tx c k' \<notin> set post"
      and nonew: "\<And>tx. EvNewTransaction tx \<notin> set post"
    from assms have "tx = NewTransaction (nonce f) (HexToAddress (toAddr f)) amt 21000 1000000000 None"
      using nosign nonew by (auto simp: run)
    with allow(4,5,6) show ?thesis by blast
  qed
qed (use assms in auto)

text \<open>
  Claim C8. Every transaction that a run builds or hands to the signer has gas limit
  21000, gas price 1000000000 and an empty payload, and carries the nonce of the command
  line, the address of the recipient and the amount parsed; the policy loaded returned
  nil for that recipient and amount. Whenever key, policy and amount load and the policy
  allows, the run builds that transaction and hands it to the signer.
\<close>

theorem transaction_fields:
  "(\<forall>tx. EvNewTransaction tx \<in> set (snd (main e f))
          \<or> (\<exists>c k. EvSignTx tx c k \<in> set (snd (main e f))) \<longrightarrow>
        Gas tx = 21000 \<and> GasPrice tx = 1000000000 \<and> Data tx = []
        \<and> Nonce tx = nonce f \<and> To tx = HexToAddress (toAddr f)
        \<and> SetString (amountWeiStr f) 10 = Some (Value tx)
        \<and> (\<exists>pol. loadPolicy (ReadFile e) (policyFile f) = Inr pol
                  \<and> checkPolicy pol (To tx) (Value tx) = Inr None))
   \<and> (\<forall>k pol amt.
         privKeyHex f \<noteq> [] \<and> toAddr f \<noteq> []
         \<and> loadPrivateKey e (privKeyHex f) = Inr k
         \<and> loadPolicy (ReadFile e) (policyFile f) = Inr pol
         \<and> SetString (amountWeiStr f) 10 = Some amt
         \<and> checkPolicy pol (HexToAddress (toAddr f)) amt = Inr None \<longrightarrow>
           EvNewTransaction \<lparr>Nonce = nonce f, To = HexToAddress (toAddr f), Value = amt,
              Gas = 21000, GasPrice = 1000000000, Data = []\<rparr> \<in> set (snd (main e f))
           \<and> EvSignTx \<lparr>Nonce = nonce f, To = HexToAddress (toAddr f), Value = amt,
              Gas = 21000, GasPrice = 1000000000, Data = []\<rparr> (sint (chainID f)) k
               \<in> set (snd (main e f)))"
proof (intro conjI allI impI)
  fix tx
  assume h: "EvNewTransaction tx \<in> set (snd (main e f))
          \<or> (\<exists>c k. EvSignTx tx c k \<in> set (snd (main e f)))"
  from tx_event [OF h] obtain pol amt where
    tx: "tx = NewTransaction (nonce f) (HexToAddress (toAddr f)) amt 21000 1000000000 None"
    and a: "SetString (amountWeiStr f) 10 = Some amt"
    and p: "loadPolicy (ReadFile e) (policyFile f) = Inr pol"
    and c: "checkPolicy pol (HexToAddress (toAddr f)) amt = Inr None"
    by blast
  show "Gas tx = 21000" "GasPrice tx = 1000000000" "Data tx = []" "Nonce tx = nonce f"
    "To tx = HexToAddress (toAddr f)"
    by (simp_all add: tx NewTransaction_def)
  show "SetString (amountWeiStr f) 10 = Some (Value tx)"
    by (simp add: tx NewTransaction_def a)
  show "\<exists>pol. loadPolicy (ReadFile e) (policyFile f) = Inr pol
                  \<and> checkPolicy pol (To tx) (Value tx) = Inr None"
    using p c by (simp add: tx NewTransaction_def)
next
  fix k pol amt
  assume h: "privKeyHex f \<noteq> [] \<and> toAddr f \<noteq> []
         \<and> loadPrivateKey e (privKeyHex f) = Inr k
         \<and> loadPolicy (ReadFile e) (policyFile f) = Inr pol
         \<and> SetString (amountWeiStr f) 10 = Some amt
         \<and> checkPolicy pol (HexToAddress (toAddr f)) amt = Inr None"
  then have m: "main e f = sign_and_print e f k (HexToAddress (toAddr f)) amt
           [EvLoadPrivateKey (privKeyHex f), EvLoadPolicy (policyFile f),
            EvCheckPolicy pol (HexToAddress (toAddr f)) amt]"
    using main_reaches_check [of f e k pol amt] by simp
  have both: "EvNewTransaction \<lparr>Nonce = nonce f, To = HexToAddress (toAddr f), Value = amt,
              Gas = 21000, GasPrice = 1000000000, Data = []\<rparr> \<in> set (snd (main e f))
           \<and> EvSignTx \<lparr>Nonce = nonce f, To = HexToAddress (toAddr f), Value = amt,
              Gas = 21000, GasPrice = 1000000000, Data = []\<rparr> (sint (chainID f)) k
               \<in> set (snd (main e f))"
  proof (rule main_allow_trace [OF m])
    fix out post
    assume "main e f =
        (out, [EvLoadPrivateKey (privKeyHex f), EvLoadPolicy (policyFile f),
            EvCheckPolicy pol (HexToAddress (toAddr f)) amt]
              @ EvNewTransaction (NewTransaction (nonce f) (HexToAddress (toAddr f)) amt 21000 1000000000 None)
              # EvSignTx (NewTransaction (nonce f) (HexToAddress (toAddr f)) amt 21000 1000000000 None)
                  (sint (chainID f)) k # post)"
    then show ?thesis by (simp add: NewTransaction_def)
  qed
  from both show "EvNewTransaction \<lparr>Nonce = nonce f, To = HexToAddress (toAddr f), Value = amt,
              Gas = 21000, GasPrice = 1000000000, Data = []\<rparr> \<in> set (snd (main e f))" ..
  from both show "EvSignTx \<lparr>Nonce = nonce f, To = HexToAddress (toAddr f), Value = amt,
              Gas = 21000, GasPrice = 1000000000, Data = []\<rparr> (sint (chainID f)) k
               \<in> set (snd (main e f))" ..
qed

theorem transaction_fields_witness:
  "EvNewTransaction \<lparr>Nonce = 7, To = HexToAddress recipient_a1, Value = 1000,
      Gas = 21000, GasPrice = 1000000000, Data = []\<rparr>
     \<in> set (snd (main (scenario_env (Valid scenario_json))
                      (scenario_flags recipient_a1 ''1000'')))
   \<and> Gas \<lparr>Nonce = 7, To = HexToAddress recipient_a1, Value = 1000,
      Gas = 21000, GasPrice = 1000000000, Data = []\<rparr> = 21000
   \<and> SetString ''1000'' 10 = Some 1000"
proof -
  let ?e = "scenario_env (Valid scenario_json)"
  let ?g = "scenario_flags recipient_a1 ''1000''"
  let ?tx = "\<lparr>Nonce = 7, To = HexToAddress recipient_a1, Value = 1000,
      Gas = 21000, GasPrice = 1000000000, Data = []\<rparr>"
  have h: "privKeyHex ?g \<noteq> [] \<and> toAddr ?g \<noteq> []
         \<and> loadPrivateKey ?e (privKeyHex ?g) = Inr ''01''
         \<and> loadPolicy (ReadFile ?e) (policyFile ?g) = Inr scenario_policy
         \<and> SetString (amountWeiStr ?g) 10 = Some 1000
         \<and> checkPolicy scenario_policy (HexToAddress (toAddr ?g)) 1000 = Inr None"
    by (simp add: scenario_fields recipients_nonempty scenario_key scenario_loadPolicy
          amount_1000 scenario_allow_a1)
  from transaction_fields [of ?e ?g] h
  have ev: "EvNewTransaction \<lparr>Nonce = nonce ?g, To = HexToAddress (toAddr ?g), Value = 1000,
              Gas = 21000, GasPrice = 1000000000, Data = []\<rparr> \<in> set (snd (main ?e ?g))"
    by blast
  then have ev': "EvNewTransaction ?tx \<in> set (snd (main ?e ?g))"
    by (simp add: scenario_fields)
  from transaction_fields [of ?e ?g] ev'
  have "Gas ?tx = 21000 \<and> SetString (amountWeiStr ?g) 10 = Some (Value ?tx)"
    by blast
  with ev' show ?thesis by (simp add: scenario_fields)
qed





section \<open>The amount on the command line\<close>

text \<open>
  Claim C3, as the code has it. An amount string that \<^verbatim>\<open>SetString\<close> rejects in base
  10 never reaches \<^verbatim>\<open>checkPolicy\<close> nor the signer, and once key and policy are
  loaded the run ends with \<open>invalid amount\<close>. The amount \<^verbatim>\<open>checkPolicy\<close> gets is the
  integer parsed. The strings accepted are one or more decimal digits after an optional
  \<open>+\<close> or \<open>-\<close>, and no others; a \<open>-\<close> before the digits gives the negated number,
  which is passed on like any other amount.
\<close>

theorem amount_parsing:
  "(SetString (amountWeiStr f) 10 = None \<longrightarrow>
      (\<forall>pol t a. EvCheckPolicy pol t a \<notin> set (snd (main e f)))
      \<and> (\<forall>tx c k. EvSignTx tx c k \<notin> set (snd (main e f)))
      \<and> (\<forall>k pol. privKeyHex f \<noteq> [] \<and> toAddr f \<noteq> []
            \<and> loadPrivateKey e (privKeyHex f) = Inr k
            \<and> loadPolicy (ReadFile e) (policyFile f) = Inr pol \<longrightarrow>
              main e f = (Fatal InvalidAmount,
                          [EvLoadPrivateKey (privKeyHex f), EvLoadPolicy (policyFile f)])))
   \<and> (\<forall>pol t a. EvCheckPolicy pol t a \<in> set (snd (main e f)) \<longrightarrow>
         SetString (amountWeiStr f) 10 = Some a)
   \<and> (\<forall>k pol a. privKeyHex f \<noteq> [] \<and> toAddr f \<noteq> []
         \<and> loadPrivateKey e (privKeyHex f) = Inr k
         \<and> loadPolicy (ReadFile e) (policyFile f) = Inr pol
         \<and> SetString (amountWeiStr f) 10 = Some a \<longrightarrow>
           EvCheckPolicy pol (HexToAddress (toAddr f)) a \<in> set (snd (main e f)))
   \<and> (\<forall>ds. ds \<noteq> [] \<and> list_all decimal_digit ds \<longrightarrow>
         SetString ds 10 = Some (int (decimal ds))
         \<and> SetString (CHR ''+'' # ds) 10 = Some (int (decimal ds))
         \<and> SetString (CHR ''-'' # ds) 10 = Some (- int (decimal ds)))
   \<and> (\<forall>s v. SetString s 10 = Some v \<longrightarrow>
         (\<exists>ds. ds \<noteq> [] \<and> list_all decimal_digit ds
               \<and> (s = ds \<or> s = CHR ''-'' # ds \<or> s = CHR ''+'' # ds)))"
proof (intro conjI allI impI)
  fix pol t a
  assume "SetString (amountWeiStr f) 10 = None"
  then show "EvCheckPolicy pol t a \<notin> set (snd (main e f))"
    by (rule no_check_without_amount)
next
  fix tx c k
  assume "SetString (amountWeiStr f) 10 = None"
  then show "EvSignTx tx c k \<notin> set (snd (main e f))"
    by (rule no_check_without_amount)
next
  fix k pol
  assume "SetString (amountWeiStr f) 10 = None"
    and "privKeyHex f \<noteq> [] \<and> toAddr f \<noteq> []
            \<and> loadPrivateKey e (privKeyHex f) = Inr k
            \<and> loadPolicy (ReadFile e) (policyFile f) = Inr pol"
  then show "main e f = (Fatal InvalidAmount,
                          [EvLoadPrivateKey (privKeyHex f), EvLoadPolicy (policyFile f)])"
    using invalid_amount_run [of f e k pol] by simp
next
  fix pol t a
  assume "EvCheckPolicy pol t a \<in> set (snd (main e f))"
  then show "SetString (amountWeiStr f) 10 = Some a"
    using check_event_amount [of pol t a e f] by simp
next
  fix k pol a
  assume "privKeyHex f \<noteq> [] \<and> toAddr f \<noteq> []
         \<and> loadPrivateKey e (privKeyHex f) = Inr k
         \<and> loadPolicy (ReadFile e) (policyFile f) = Inr pol
         \<and> SetString (amountWeiStr f) 10 = Some a"
  then have m: "main e f =
     (case checkPolicy pol (HexToAddress (toAddr f)) a of
        Inl p \<Rightarrow>
          (Panicked p,
           [EvLoadPrivateKey (privKeyHex f), EvLoadPolicy (policyFile f),
            EvCheckPolicy pol (HexToAddress (toAddr f)) a])
      | Inr (Some err) \<Rightarrow>
          (Fatal (PolicyCheckFailed err),
           [EvLoadPrivateKey (privKeyHex f), EvLoadPolicy (policyFile f),
            EvCheckPolicy pol (HexToAddress (toAddr f)) a])
      | Inr None \<Rightarrow>
          sign_and_print e f k (HexToAddress (toAddr f)) a
           [EvLoadPrivateKey (privKeyHex f), EvLoadPolicy (policyFile f),
            EvCheckPolicy pol (HexToAddress (toAddr f)) a])"
    using main_reaches_check [of f e k pol a] by simp
  show "EvCheckPolicy pol (HexToAddress (toAddr f)) a \<in> set (snd (main e f))"
  proof (cases "checkPolicy pol (HexToAddress (toAddr f)) a")
    case (Inl p)
    then show ?thesis by (simp add: m)
  next
    case (Inr r)
    show ?thesis
    proof (cases r)
      case None
      with Inr have ms: "main e f = sign_and_print e f k (HexToAddress (toAddr f)) a
           [EvLoadPrivateKey (privKeyHex f), EvLoadPolicy (policyFile f),
            EvCheckPolicy pol (HexToAddress (toAddr f)) a]"
        by (simp add: m)
      show ?thesis
        by (rule main_allow_trace [OF ms]) simp
    next
      case (Some err)
      with Inr show ?thesis by (simp add: m)
    qed
  qed
next
  fix ds
  assume h: "ds \<noteq> [] \<and> list_all decimal_digit ds"
  then show "SetString ds 10 = Some (int (decimal ds))"
    using SetString_digits(1) [of ds] by simp
  from h show "SetString (CHR ''+'' # ds) 10 = Some (int (decimal ds))"
    using SetString_digits(3) [of ds] by simp
  from h show "SetString (CHR ''-'' # ds) 10 = Some (- int (decimal ds))"
    using SetString_digits(2) [of ds] by simp
next
  fix s v
  assume "SetString s 10 = Some v"
  then show "\<exists>ds. ds \<noteq> [] \<and> list_all decimal_digit ds
               \<and> (s = ds \<or> s = CHR ''-'' # ds \<or> s = CHR ''+'' # ds)"
    by (rule SetString_form)
qed

lemma amount_abc: "SetString ''12a'' 10 = None"
  by code_simp

theorem amount_parsing_witness:
  "SetString ''12a'' 10 = None
   \<and> main (scenario_env (Valid scenario_json)) (scenario_flags recipient_a1 ''12a'')
       = (Fatal InvalidAmount, [EvLoadPrivateKey ''0x01'', EvLoadPolicy ''policy.json''])
   \<and> SetString ''-5'' 10 = Some (- int (decimal ''5''))
   \<and> decimal ''5'' = 5"
proof -
  let ?e = "scenario_env (Valid scenario_json)"
  let ?g = "scenario_flags recipient_a1 ''12a''"
  have n: "SetString (amountWeiStr ?g) 10 = None"
    by (simp add: scenario_fields amount_abc)
  have h: "privKeyHex ?g \<noteq> [] \<and> toAddr ?g \<noteq> []
            \<and> loadPrivateKey ?e (privKeyHex ?g) = Inr ''01''
            \<and> loadPolicy (ReadFile ?e) (policyFile ?g) = Inr scenario_policy"
    by (simp add: scenario_fields recipients_nonempty scenario_key scenario_loadPolicy)
  note th = amount_parsing [of ?g ?e]
  from th have "SetString (amountWeiStr ?g) 10 = None \<longrightarrow>
      (\<forall>pol t a. EvCheckPolicy pol t a \<notin> set (snd (main ?e ?g)))
      \<and> (\<forall>tx c k. EvSignTx tx c k \<notin> set (snd (main ?e ?g)))
      \<and> (\<forall>k pol. privKeyHex ?g \<noteq> [] \<and> toAddr ?g \<noteq> []
            \<and> loadPrivateKey ?e (privKeyHex ?g) = Inr k
            \<and> loadPolicy (ReadFile ?e) (policyFile ?g) = Inr pol \<longrightarrow>
              main ?e ?g = (Fatal InvalidAmount,
                          [EvLoadPrivateKey (privKeyHex ?g), EvLoadPolicy (policyFile ?g)]))"
    by (rule conjunct1)
  with n have "\<forall>k pol. privKeyHex ?g \<noteq> [] \<and> toAddr ?g \<noteq> []
            \<and> loadPrivateKey ?e (privKeyHex ?g) = Inr k
            \<and> loadPolicy (ReadFile ?e) (policyFile ?g) = Inr pol \<longrightarrow>
              main ?e ?g = (Fatal InvalidAmount,
                          [EvLoadPrivateKey (privKeyHex ?g), EvLoadPolicy (policyFile ?g)])"
    by simp
  with h have run: "main ?e ?g = (Fatal InvalidAmount,
                          [EvLoadPrivateKey (privKeyHex ?g), EvLoadPolicy (policyFile ?g)])"
    by (elim allE [of _ "''01''"] allE [of _ scenario_policy]) (rule mp)
  have d: "''5'' \<noteq> [] \<and> list_all decimal_digit ''5''"
    by (simp add: decimal_digit_def byte_of_def)
  from th have "\<forall>ds. ds \<noteq> [] \<and> list_all decimal_digit ds \<longrightarrow>
         SetString ds 10 = Some (int (decimal ds))
         \<and> SetString (CHR ''+'' # ds) 10 = Some (int (decimal ds))
         \<and> SetString (CHR ''-'' # ds) 10 = Some (- int (decimal ds))"
    by (elim conjE)
  then have "''5'' \<noteq> [] \<and> list_all decimal_digit ''5'' \<longrightarrow>
         SetString ''5'' 10 = Some (int (decimal ''5''))
         \<and> SetString (CHR ''+'' # ''5'') 10 = Some (int (decimal ''5''))
         \<and> SetString (CHR ''-'' # ''5'') 10 = Some (- int (decimal ''5''))"
    by (rule spec)
  with d have neg: "SetString (CHR ''-'' # ''5'') 10 = Some (- int (decimal ''5''))"
    by simp
  have v: "decimal ''5'' = 5" by (simp add: decimal_def byte_of_def)
  from run neg v amount_abc show ?thesis by (simp add: scenario_fields)
qed

text \<open>
  The amount \<open>-5\<close> parses, the run does not end with \<open>invalid amount\<close>, and
  \<^verbatim>\<open>checkPolicy\<close> is called with \<open>-5\<close> and returns nil for a whitelisted
  recipient.
\<close>

theorem negative_amount_counterexample:
  "SetString ''-5'' 10 = Some (- 5)
   \<and> take 3 (snd (main (scenario_env (Valid scenario_json)) (scenario_flags recipient_a1 ''-5'')))
       = [EvLoadPrivateKey ''0x01'', EvLoadPolicy ''policy.json'',
          EvCheckPolicy scenario_policy (HexToAddress recipient_a1) (- 5)]
   \<and> checkPolicy scenario_policy (HexToAddress recipient_a1) (- 5) = Inr None
   \<and> fst (main (scenario_env (Valid scenario_json)) (scenario_flags recipient_a1 ''-5''))
       \<noteq> Fatal InvalidAmount"
proof -
  have le: "(- 5::int) \<le> 1000" by simp
  have run: "snd (main (scenario_env (Valid scenario_json)) (scenario_flags recipient_a1 ''-5''))
      = [EvLoadPrivateKey ''0x01'', EvLoadPolicy ''policy.json'',
         EvCheckPolicy scenario_policy (HexToAddress recipient_a1) (- 5),
         EvNewTransaction \<lparr>Nonce = 7, To = HexToAddress recipient_a1, Value = - 5,
            Gas = 21000, GasPrice = 1000000000, Data = []\<rparr>,
         EvSignTx \<lparr>Nonce = 7, To = HexToAddress recipient_a1, Value = - 5,
            Gas = 21000, GasPrice = 1000000000, Data = []\<rparr> 1 ''01'',
         EvMarshalBinary (\<lparr>Nonce = 7, To = HexToAddress recipient_a1, Value = - 5,
            Gas = 21000, GasPrice = 1000000000, Data = []\<rparr>, 1),
         EvPrintln ''RawTxHex: 01'']"
    and out: "fst (main (scenario_env (Valid scenario_json)) (scenario_flags recipient_a1 ''-5''))
      = Printed ''RawTxHex: 01''"
    by (simp_all only: scenario_run_allowed [OF amount_minus_5 le] fst_conv snd_conv)
  have t: "take 3 (snd (main (scenario_env (Valid scenario_json)) (scenario_flags recipient_a1 ''-5'')))
       = [EvLoadPrivateKey ''0x01'', EvLoadPolicy ''policy.json'',
          EvCheckPolicy scenario_policy (HexToAddress recipient_a1) (- 5)]"
    unfolding run by (simp add: numeral_3_eq_3)
  have ne: "fst (main (scenario_env (Valid scenario_json)) (scenario_flags recipient_a1 ''-5''))
       \<noteq> Fatal InvalidAmount"
    unfolding out by simp
  from amount_minus_5 t scenario_allow_a1 [OF le] ne show ?thesis by (intro conjI)
qed

section \<open>How an entry of the whitelist is matched\<close>

lemma unprefixed_address: "HexToAddress unprefixed_entry = HexToAddress recipient_a1"
  by code_simp

lemma unprefixed_no_prefix: "\<not> has0xPrefix unprefixed_entry"
  by code_simp

lemma unlisted_by_prefix:
  assumes "\<forall>addr \<in> set (Whitelist P). \<not> has0xPrefix addr"
  shows "checkPolicy P r a = Inr (Some (errors_New ''recipient not in whitelist''))"
  using assms EqualFold_hex_prefix by (auto simp: checkPolicy_eq list_ex_iff)

text \<open>
  Against claim C5 as it is written: the only entry of the whitelist spells the address
  of the recipient, without \<open>0x\<close>, and the amount 1 is below the limit 1000; the
  decision is the whitelist denial, not nil.
\<close>

theorem unprefixed_entry_counterexample:
  "HexToAddress unprefixed_entry = HexToAddress recipient_a1
   \<and> MaxAmountWei \<lparr>MaxAmountWei = Some 1000, Whitelist = [unprefixed_entry]\<rparr> = Some 1000
   \<and> checkPolicy \<lparr>MaxAmountWei = Some 1000, Whitelist = [unprefixed_entry]\<rparr>
        (HexToAddress recipient_a1) 1
      = Inr (Some (errors_New ''recipient not in whitelist''))"
proof -
  have "checkPolicy \<lparr>MaxAmountWei = Some 1000, Whitelist = [unprefixed_entry]\<rparr>
        (HexToAddress recipient_a1) 1
      = Inr (Some (errors_New ''recipient not in whitelist''))"
    by (rule unlisted_by_prefix) (simp add: unprefixed_no_prefix)
  then show ?thesis by (simp add: unprefixed_address)
qed

lemma fold_low: "foldEqByte c c' \<Longrightarrow> (byte_of c < 128) = (byte_of c' < 128)"
  unfolding foldEqByte_def Let_def min_def max_def
  by (auto split: if_splits)

lemma fold_high: "foldEqByte c c' \<Longrightarrow> \<not> byte_of c < 128 \<Longrightarrow> c' = c"
  unfolding foldEqByte_def Let_def min_def max_def
  by (auto simp: byte_of_def split: if_splits)

lemma fold_high_bytes:
  "list_all2 foldEqByte u u' \<Longrightarrow> \<forall>b \<in> set bs. \<not> b < 128 \<Longrightarrow>
     (map byte_of u = bs) = (map byte_of u' = bs)"
proof (induction u u' arbitrary: bs rule: list_all2_induct)
  case Nil
  then show ?case by simp
next
  case (Cons x xs y ys)
  show ?case
  proof (cases bs)
    case Nil
    then show ?thesis by simp
  next
    case (Cons b bs')
    have hb: "\<not> b < 128" and hbs: "\<forall>b \<in> set bs'. \<not> b < 128"
      using Cons.prems Cons by simp_all
    have "(byte_of x = b) = (byte_of y = b)"
      using fold_high [OF Cons.hyps(1)] fold_high [OF foldEqByte_sym [OF Cons.hyps(1)]] hb
      by auto
    then show ?thesis
      using Cons.IH [OF hbs] Cons by simp
  qed
qed

lemma EqualFold_cong_left:
  "list_all2 foldEqByte s s' \<Longrightarrow> EqualFold s t = EqualFold s' t"
proof (induction s t arbitrary: s' rule: EqualFold.induct)
  case (1 t)
  then show ?case by simp
next
  case (2 sr s)
  then obtain sr' s2 where "s' = sr' # s2" by (auto simp: list_all2_Cons1)
  then show ?case by simp
next
  case (3 sr s tr t)
  from "3.prems" obtain sr' s2 where s': "s' = sr' # s2" and h: "foldEqByte sr sr'"
    and r: "list_all2 foldEqByte s s2"
    by (auto simp: list_all2_Cons1)
  show ?case
  proof (cases "byte_of sr < 128")
    case True
    then have lo: "byte_of sr' < 128" using fold_low [OF h] by simp
    have "foldEqByte sr tr = foldEqByte sr' tr"
      using h by (meson foldEqByte_sym foldEqByte_trans)
    then show ?thesis
      using True lo "3.IH"(1) [OF True r] by (simp add: s')
  next
    case False
    then have eq: "sr' = sr" using fold_high [OF h] by simp
    have t1: "(map byte_of (take 1 s) = [191]) = (map byte_of (take 1 s2) = [191])"
      by (rule fold_high_bytes [OF list_all2_takeI [OF r]]) simp
    have t2: "(map byte_of (take 2 s) = [132, 170]) = (map byte_of (take 2 s2) = [132, 170])"
      by (rule fold_high_bytes [OF list_all2_takeI [OF r]]) simp
    show ?thesis
    proof (cases "byte_of sr = 197 \<and> map byte_of (take 1 s) = [191]")
      case True
      have "EqualFold (drop 1 s) t = EqualFold (drop 1 s2) t"
        by (rule "3.IH"(2) [OF False True list_all2_dropI [OF r]])
      then show ?thesis
        using False True t1 by (simp add: s' eq)
    next
      case n1: False
      show ?thesis
      proof (cases "byte_of sr = 226 \<and> map byte_of (take 2 s) = [132, 170]")
        case True
        have "EqualFold (drop 2 s) t = EqualFold (drop 2 s2) t"
          by (rule "3.IH"(3) [OF False n1 True list_all2_dropI [OF r]])
        then show ?thesis
          using False n1 True t1 t2 by (simp add: s' eq)
      next
        case n2: False
        have m1: "\<not> (byte_of sr = 197 \<and> map byte_of (take 1 s2) = [191])"
          using n1 t1 by simp
        have m2: "\<not> (byte_of sr = 226 \<and> map byte_of (take 2 s2) = [132, 170])"
          using n2 t2 by simp
        have l: "EqualFold (sr # s) (tr # t) = False"
          using False n1 n2 by (simp only: EqualFold.simps if_False)
        have r': "EqualFold (sr # s2) (tr # t) = False"
          using False m1 m2 by (simp only: EqualFold.simps if_False)
        show ?thesis by (simp only: s' eq l r')
      qed
    qed
  qed
qed

lemma whitelist_fold:
  assumes "list_all2 (list_all2 foldEqByte) wl wl'"
  shows "list_ex (\<lambda>addr. EqualFold addr t) wl = list_ex (\<lambda>addr. EqualFold addr t) wl'"
  using assms
  by (induction wl wl' rule: list_all2_induct) (simp_all add: EqualFold_cong_left)

text \<open>
  Claim C6, as the code has it. The recipient string is read ignoring the case of its
  letters, and with or without \<open>0x\<close>: two strings that differ in case only, or in the
  prefix only, give the same address and so the same decision. The entries of the
  whitelist are compared ignoring case: a policy whose entries differ from another's in
  case only decides the same. An entry is compared as it is written, with the form
  \<open>0x\<close> and forty digits of the address: a whitelist whose entries all lack the prefix
  denies every recipient.
\<close>

theorem whitelist_matching:
  "(\<forall>s s'. list_all2 foldEqByte s s' \<longrightarrow>
      HexToAddress s = HexToAddress s'
      \<and> checkPolicy P (HexToAddress s) a = checkPolicy P (HexToAddress s') a)
   \<and> (\<forall>s. \<not> has0xPrefix s \<longrightarrow>
         HexToAddress (''0x'' @ s) = HexToAddress s
         \<and> checkPolicy P (HexToAddress (''0x'' @ s)) a = checkPolicy P (HexToAddress s) a)
   \<and> (\<forall>P' :: Policy. MaxAmountWei P' = MaxAmountWei P
            \<and> list_all2 (list_all2 foldEqByte) (Whitelist P) (Whitelist P') \<longrightarrow>
         checkPolicy P' r a = checkPolicy P r a)
   \<and> ((\<forall>addr \<in> set (Whitelist P). \<not> has0xPrefix addr) \<longrightarrow>
         checkPolicy P r a = Inr (Some (errors_New ''recipient not in whitelist'')))"
proof (intro conjI allI impI)
  fix s s' :: string
  assume h: "list_all2 foldEqByte s s'"
  then show e: "HexToAddress s = HexToAddress s'" by (rule HexToAddress_fold)
  then show "checkPolicy P (HexToAddress s) a = checkPolicy P (HexToAddress s') a" by simp
next
  fix s
  assume h: "\<not> has0xPrefix s"
  then show e: "HexToAddress (''0x'' @ s) = HexToAddress s" by (rule HexToAddress_prefix)
  then show "checkPolicy P (HexToAddress (''0x'' @ s)) a = checkPolicy P (HexToAddress s) a"
    by simp
next
  fix P' :: Policy
  assume h: "MaxAmountWei P' = MaxAmountWei P
            \<and> list_all2 (list_all2 foldEqByte) (Whitelist P) (Whitelist P')"
  then show "checkPolicy P' r a = checkPolicy P r a"
    using whitelist_fold [of "Whitelist P" "Whitelist P'" "hex r"]
    by (simp add: checkPolicy_eq)
next
  assume "\<forall>addr \<in> set (Whitelist P). \<not> has0xPrefix addr"
  then show "checkPolicy P r a = Inr (Some (errors_New ''recipient not in whitelist''))"
    by (rule unlisted_by_prefix)
qed

lemma entry_folds_a1: "list_all2 foldEqByte scenario_entry recipient_a1"
  by code_simp

theorem whitelist_matching_witness:
  "list_all2 foldEqByte scenario_entry recipient_a1
   \<and> HexToAddress scenario_entry = HexToAddress recipient_a1
   \<and> \<not> has0xPrefix unprefixed_entry
   \<and> checkPolicy \<lparr>MaxAmountWei = Some 1000, Whitelist = [unprefixed_entry]\<rparr>
        (HexToAddress recipient_b2) 1
      = Inr (Some (errors_New ''recipient not in whitelist''))"
proof -
  let ?P = "\<lparr>MaxAmountWei = Some 1000, Whitelist = [unprefixed_entry]\<rparr>"
  note th = whitelist_matching [of ?P 1 "HexToAddress recipient_b2"]
  from th have "\<forall>s s'. list_all2 foldEqByte s s' \<longrightarrow>
      HexToAddress s = HexToAddress s'
      \<and> checkPolicy ?P (HexToAddress s) 1 = checkPolicy ?P (HexToAddress s') 1"
    by (rule conjunct1)
  then have "list_all2 foldEqByte scenario_entry recipient_a1 \<longrightarrow>
      HexToAddress scenario_entry = HexToAddress recipient_a1
      \<and> checkPolicy ?P (HexToAddress scenario_entry) 1
          = checkPolicy ?P (HexToAddress recipient_a1) 1"
    by (elim allE)
  with entry_folds_a1 have a: "HexToAddress scenario_entry = HexToAddress recipient_a1"
    by simp
  have np: "\<forall>addr \<in> set (Whitelist ?P). \<not> has0xPrefix addr"
    by (simp add: unprefixed_no_prefix)
  from th have "(\<forall>addr \<in> set (Whitelist ?P). \<not> has0xPrefix addr) \<longrightarrow>
         checkPolicy ?P (HexToAddress recipient_b2) 1
           = Inr (Some (errors_New ''recipient not in whitelist''))"
    by (elim conjE)
  with np have d: "checkPolicy ?P (HexToAddress recipient_b2) 1
           = Inr (Some (errors_New ''recipient not in whitelist''))"
    by (rule rev_mp)
  from entry_folds_a1 a unprefixed_no_prefix d show ?thesis by (intro conjI)
qed

lemma lower_unprefixed_no_prefix:
  "\<not> has0xPrefix ''aaaaaaaaaaaaaaaaaaaaaaaaaaaaaaaaaaaaaaa1''"
  by code_simp

lemma lower_unprefixed_address:
  "HexToAddress ''aaaaaaaaaaaaaaaaaaaaaaaaaaaaaaaaaaaaaaa1''
     = HexToAddress ''0xaaaaaaaaaaaaaaaaaaaaaaaaaaaaaaaaaaaaaaa1''"
  by code_simp

lemma lower_prefixed_matches:
  "EqualFold ''0xaaaaaaaaaaaaaaaaaaaaaaaaaaaaaaaaaaaaaaa1''
     (hex (HexToAddress ''0xaaaaaaaaaaaaaaaaaaaaaaaaaaaaaaaaaaaaaaa1''))"
  by code_simp

text \<open>
  Against claim C6 as it is written: the same address as the only entry of the
  whitelist, with \<open>0x\<close> it is allowed, without \<open>0x\<close> it is denied.
\<close>

theorem whitelist_prefix_counterexample:
  "HexToAddress ''aaaaaaaaaaaaaaaaaaaaaaaaaaaaaaaaaaaaaaa1''
     = HexToAddress ''0xaaaaaaaaaaaaaaaaaaaaaaaaaaaaaaaaaaaaaaa1''
   \<and> checkPolicy \<lparr>MaxAmountWei = Some 1000,
                   Whitelist = [''0xaaaaaaaaaaaaaaaaaaaaaaaaaaaaaaaaaaaaaaa1'']\<rparr>
        (HexToAddress ''0xaaaaaaaaaaaaaaaaaaaaaaaaaaaaaaaaaaaaaaa1'') 1 = Inr None
   \<and> checkPolicy \<lparr>MaxAmountWei = Some 1000,
                   Whitelist = [''aaaaaaaaaaaaaaaaaaaaaaaaaaaaaaaaaaaaaaa1'']\<rparr>
        (HexToAddress ''0xaaaaaaaaaaaaaaaaaaaaaaaaaaaaaaaaaaaaaaa1'') 1
      = Inr (Some (errors_New ''recipient not in whitelist''))"
proof -
  have d: "checkPolicy \<lparr>MaxAmountWei = Some 1000,
                   Whitelist = [''aaaaaaaaaaaaaaaaaaaaaaaaaaaaaaaaaaaaaaa1'']\<rparr>
        (HexToAddress ''0xaaaaaaaaaaaaaaaaaaaaaaaaaaaaaaaaaaaaaaa1'') 1
      = Inr (Some (errors_New ''recipient not in whitelist''))"
    by (rule unlisted_by_prefix) (simp only: Policy.simps list.set ball_simps
          lower_unprefixed_no_prefix not_False_eq_True)
  have al: "checkPolicy \<lparr>MaxAmountWei = Some 1000,
                   Whitelist = [''0xaaaaaaaaaaaaaaaaaaaaaaaaaaaaaaaaaaaaaaa1'']\<rparr>
        (HexToAddress ''0xaaaaaaaaaaaaaaaaaaaaaaaaaaaaaaaaaaaaaaa1'') 1 = Inr None"
    using lower_prefixed_matches
    by (simp add: checkPolicy_eq del: EqualFold.simps)
  from lower_unprefixed_address al d show ?thesis by (intro conjI)
qed

end
